theory Spec2Isabelle
  imports
    Complex_Main
    "HOL-Library.Char_ord"
    "HOL-Library.List_Lexorder"
    "HOL-Library.Product_Lexorder"
    "HOL-Library.Sublist"
    "HOL-Library.Multiset"
begin

section \<open>Errors\<close>

text \<open>
  Every \<^verbatim>\<open>raise\<close> of FWQPBO.py, and every exception that the Python run time raises
  inside the modelled functions, is a value of this type. Functions that can raise return
  \<open>pyError + 'a\<close>, with \<open>Inl\<close> for the exception.
\<close>

datatype pyError =
    UnknownCombination nat nat nat nat
      \<comment> \<open>'Unknown combination of image types: {} real, {} imag, {} magn, {} phase'\<close>
  | MultipleMultiFrame
      \<comment> \<open>'Support for multiple multi-frame DICOM files not implemented yet!'\<close>
  | UnknownImageTypes
      \<comment> \<open>'Unknown image types'\<close>
  | EchoSpacingVaries
      \<comment> \<open>'Warning: echo inter-spacing varies more than 5%', raised by the MATLAB path\<close>
  | NotClockwise
  | MoreThanOneCoil
  | FACResonances
      \<comment> \<open>'FAC excpects exactly one water and ten triglyceride resonances'\<close>
  | UnknownNumberOfFAC int
  | AttributeError string
  | TypeError
  | IndexError
  | ValueError
  | ZeroDivisionError
  | NameError
  | OverflowError
  | ReadError
      \<comment> \<open>whatever \<^verbatim>\<open>dicom.read_file\<close> raises for a file that it cannot read\<close>
  | NonFinite
      \<comment> \<open>no exception: numpy goes on with infinities and not-a-number, this model does not\<close>

section \<open>Sequencing\<close>

text \<open>Sequencing of steps that can raise, and a list comprehension whose body can.\<close>

definition andThen :: "pyError + 'a \<Rightarrow> ('a \<Rightarrow> pyError + 'b) \<Rightarrow> pyError + 'b" where
  "andThen m f = (case m of Inl e \<Rightarrow> Inl e | Inr x \<Rightarrow> f x)"

fun mapM :: "('a \<Rightarrow> pyError + 'b) \<Rightarrow> 'a list \<Rightarrow> pyError + 'b list" where
  "mapM f [] = Inr []"
| "mapM f (x # xs) = andThen (f x) (\<lambda>y. andThen (mapM f xs) (\<lambda>ys. Inr (y # ys)))"

text \<open>
  An arithmetic operation on two flattened arrays goes element by element; an array of
  one element is stretched, and any other difference of the lengths raises ValueError.
\<close>

definition broadcast :: "'a list \<Rightarrow> 'b list \<Rightarrow> pyError + ('a \<times> 'b) list" where
  "broadcast xs ys =
     (if length xs = length ys then Inr (zip xs ys)
      else if length xs = 1 then Inr (map (\<lambda>y. (hd xs, y)) ys)
      else if length ys = 1 then Inr (map (\<lambda>x. (x, hd ys)) xs)
      else Inl ValueError)"

section \<open>Floating-point numbers\<close>

text \<open>Python's \<^verbatim>\<open>int(x)\<close> on a float truncates towards zero.\<close>

definition pyInt :: "real \<Rightarrow> int" where
  "pyInt x = (if x \<ge> 0 then \<lfloor>x\<rfloor> else \<lceil>x\<rceil>)"

text \<open>Python 3's \<^verbatim>\<open>round(x)\<close> rounds to the nearest integer, a tie to the even one.\<close>

definition pyRound :: "real \<Rightarrow> int" where
  "pyRound x =
     (let f = \<lfloor>x\<rfloor>; d = x - of_int f
      in if d < 1 / 2 then f
         else if d > 1 / 2 then f + 1
         else if even f then f else f + 1)"

text \<open>
  The program computes with 64-bit floats (Python's \<^verbatim>\<open>float\<close>, numpy's \<^verbatim>\<open>float64\<close> and
  \<^verbatim>\<open>complex128\<close>) and with 32-bit floats (\<^verbatim>\<open>IMGTYPE = ctypes.c_float\<close>, numpy's \<^verbatim>\<open>float32\<close> and
  \<^verbatim>\<open>complex64\<close>). Every single operation of IEEE 754 gives the exact result rounded to the
  nearest number of the format, a tie going to the even significand.

  \<open>ulp p x\<close> is the distance of two neighbouring numbers with a significand of \<open>p\<close> bits
  next to a positive \<open>x\<close>: the power of two \<open>u\<close> with \<open>2 ^ (p - 1) * u \<le> x < 2 ^ p * u\<close>.
  \<open>fl p x\<close> rounds \<open>x\<close> to \<open>p\<close> bits, with no bound on the exponent.
\<close>

function ulp :: "nat \<Rightarrow> real \<Rightarrow> real" where
  "ulp p x =
     (if x \<le> 0 then 1
      else if 2 ^ p \<le> x then 2 * ulp p (x / 2)
      else if 2 * x < 2 ^ p then ulp p (2 * x) / 2
      else 1)"
  by pat_completeness auto
termination
proof (relation "measure (\<lambda>(p, x). if 2 ^ p \<le> x then nat \<lfloor>x\<rfloor> + 2 else nat \<lfloor>2 ^ p / x\<rfloor>)")
  have halve: "\<lfloor>y / 2\<rfloor> < \<lfloor>y\<rfloor>" if "1 \<le> y" for y :: real
  proof -
    from that have "1 \<le> \<lfloor>y\<rfloor>" by (simp add: le_floor_iff)
    then have "1 \<le> real_of_int \<lfloor>y\<rfloor>" by linarith
    moreover have "y < real_of_int \<lfloor>y\<rfloor> + 1" by linarith
    ultimately have "y / 2 < real_of_int \<lfloor>y\<rfloor>" by linarith
    then show ?thesis by (simp add: floor_less_iff)
  qed
  {
    fix p :: nat and x :: real
    assume x: "\<not> x \<le> 0" and big: "2 ^ p \<le> x"
    have p1: "(1::real) \<le> 2 ^ p" by simp
    with big have x1: "1 \<le> x" by linarith
    from halve [OF x1] x1 have a: "nat \<lfloor>x / 2\<rfloor> < nat \<lfloor>x\<rfloor>"
      by (simp add: le_floor_iff)
    have b: "nat \<lfloor>2 ^ p / (x / 2)\<rfloor> < nat \<lfloor>x\<rfloor> + 2"
    proof -
      from big x have "2 ^ p / (x / 2) \<le> 2" by (simp add: field_simps)
      then have "\<lfloor>2 ^ p / (x / 2)\<rfloor> \<le> 2" by (metis floor_mono floor_numeral)
      moreover from x1 have "1 \<le> \<lfloor>x\<rfloor>" by (simp add: le_floor_iff)
      ultimately show ?thesis by linarith
    qed
    from a b show "((p, x / 2), (p, x)) \<in> measure (\<lambda>(p, x). if 2 ^ p \<le> x then nat \<lfloor>x\<rfloor> + 2 else nat \<lfloor>2 ^ p / x\<rfloor>)"
      using big by simp
  next
    fix p :: nat and x :: real
    assume x: "\<not> x \<le> 0" and nb: "\<not> 2 ^ p \<le> x" and small: "2 * x < 2 ^ p"
    from x small have y: "1 \<le> 2 ^ p / x" by (simp add: field_simps)
    from halve [OF y] y have "nat \<lfloor>2 ^ p / x / 2\<rfloor> < nat \<lfloor>2 ^ p / x\<rfloor>"
      by (simp add: le_floor_iff)
    then have "nat \<lfloor>2 ^ p / (2 * x)\<rfloor> < nat \<lfloor>2 ^ p / x\<rfloor>"
      by (simp add: mult.commute)
    then show "((p, 2 * x), (p, x)) \<in> measure (\<lambda>(p, x). if 2 ^ p \<le> x then nat \<lfloor>x\<rfloor> + 2 else nat \<lfloor>2 ^ p / x\<rfloor>)"
      using nb small by simp
  }
qed simp

declare ulp.simps [simp del]

definition fl :: "nat \<Rightarrow> real \<Rightarrow> real" where
  "fl p x = sgn x * (of_int (pyRound (\<bar>x\<bar> / ulp p \<bar>x\<bar>)) * ulp p \<bar>x\<bar>)"

text \<open>
  A format has a precision \<open>p\<close> and a bound: its finite numbers are smaller than
  \<open>2 ^ emax\<close> in absolute value, and below \<open>smallestNormal\<close> they are the multiples of
  \<open>smallestSubnormal\<close>.
\<close>

record format =
  precision :: nat
  emax :: nat

definition binary64 :: format where
  "binary64 = \<lparr>precision = 53, emax = 1024\<rparr>"

definition binary32 :: format where
  "binary32 = \<lparr>precision = 24, emax = 128\<rparr>"

definition smallestNormal :: "format \<Rightarrow> real" where
  "smallestNormal f = 1 / 2 ^ (emax f - 2)"

definition smallestSubnormal :: "format \<Rightarrow> real" where
  "smallestSubnormal f = smallestNormal f / 2 ^ (precision f - 1)"

text \<open>Rounding to the nearest number of the format, before the check for overflow.\<close>

definition roundTo :: "format \<Rightarrow> real \<Rightarrow> real" where
  "roundTo f x =
     (if \<bar>x\<bar> < smallestNormal f
      then sgn x * (of_int (pyRound (\<bar>x\<bar> / smallestSubnormal f)) * smallestSubnormal f)
      else fl (precision f) x)"

text \<open>
  A value of a float variable: a finite number, an infinity or not-a-number. The two
  zeros of IEEE 754 are one number here; where the sign of a zero decides a result (a
  division by zero), the zero is taken as positive, which it is wherever the program
  divides: the absolute value of an attribute, and a mean of differences that is zero.
\<close>

datatype ieee = Finite real | PosInf | NegInf | NaN

definition infinity :: "real \<Rightarrow> ieee" where
  "infinity s = (if 0 < s then PosInf else NegInf)"

text \<open>The result of an operation whose exact value is \<open>x\<close>: an infinity on overflow.\<close>

definition rnd :: "format \<Rightarrow> real \<Rightarrow> ieee" where
  "rnd f x =
     (let r = roundTo f x
      in if 2 ^ emax f \<le> \<bar>r\<bar> then infinity r else Finite r)"

fun signOf :: "ieee \<Rightarrow> real" where
  "signOf (Finite x) = sgn x"
| "signOf PosInf = 1"
| "signOf NegInf = - 1"
| "signOf NaN = 0"

fun fneg :: "ieee \<Rightarrow> ieee" where
  "fneg (Finite x) = Finite (- x)"
| "fneg PosInf = NegInf"
| "fneg NegInf = PosInf"
| "fneg NaN = NaN"

fun fabs :: "ieee \<Rightarrow> ieee" where
  "fabs (Finite x) = Finite \<bar>x\<bar>"
| "fabs PosInf = PosInf"
| "fabs NegInf = PosInf"
| "fabs NaN = NaN"

text \<open>The conversion of a float to a format.\<close>

fun cast :: "format \<Rightarrow> ieee \<Rightarrow> ieee" where
  "cast f (Finite x) = rnd f x"
| "cast f a = a"

text \<open>Addition, subtraction, multiplication and division in a format.\<close>

fun fadd :: "format \<Rightarrow> ieee \<Rightarrow> ieee \<Rightarrow> ieee" where
  "fadd f (Finite x) (Finite y) = rnd f (x + y)"
| "fadd f NaN b = NaN"
| "fadd f a NaN = NaN"
| "fadd f (Finite x) b = b"
| "fadd f a (Finite y) = a"
| "fadd f a b = (if a = b then a else NaN)"

definition fsub :: "format \<Rightarrow> ieee \<Rightarrow> ieee \<Rightarrow> ieee" where
  "fsub f a b = fadd f a (fneg b)"

fun fmul :: "format \<Rightarrow> ieee \<Rightarrow> ieee \<Rightarrow> ieee" where
  "fmul f (Finite x) (Finite y) = rnd f (x * y)"
| "fmul f NaN b = NaN"
| "fmul f a NaN = NaN"
| "fmul f a b = (if signOf a * signOf b = 0 then NaN else infinity (signOf a * signOf b))"

text \<open>
  The division of numpy, which does not raise: a finite number by zero is an infinity,
  zero by zero is not-a-number.
\<close>

fun fdiv :: "format \<Rightarrow> ieee \<Rightarrow> ieee \<Rightarrow> ieee" where
  "fdiv f (Finite x) (Finite y) =
     (if y = 0 then (if x = 0 then NaN else infinity x) else rnd f (x / y))"
| "fdiv f NaN b = NaN"
| "fdiv f a NaN = NaN"
| "fdiv f (Finite x) b = Finite 0"
| "fdiv f a (Finite y) = infinity (signOf a * (if y < 0 then - 1 else 1))"
| "fdiv f a b = NaN"

text \<open>\<open>a < b\<close> on floats: false whenever one of them is not-a-number.\<close>

fun fless :: "ieee \<Rightarrow> ieee \<Rightarrow> bool" where
  "fless (Finite x) (Finite y) = (x < y)"
| "fless NaN b = False"
| "fless a NaN = False"
| "fless NegInf b = (b \<noteq> NegInf)"
| "fless a PosInf = (a \<noteq> PosInf)"
| "fless a b = False"

text \<open>
  The division of two Python floats raises ZeroDivisionError for the divisor zero and is
  the division of IEEE 754 otherwise.
\<close>

definition pyDiv :: "ieee \<Rightarrow> ieee \<Rightarrow> pyError + ieee" where
  "pyDiv a b = (if b = Finite 0 then Inl ZeroDivisionError else Inr (fdiv binary64 a b))"

text \<open>
  \<^verbatim>\<open>float(s)\<close> of a decimal string and the conversion of an integer to a float in an
  arithmetic operation: the nearest float. The string \<^verbatim>\<open>'1e400'\<close> gives an infinity; an
  integer that is too large raises OverflowError.
\<close>

definition pyFloat :: "real \<Rightarrow> ieee" where
  "pyFloat x = rnd binary64 x"

definition intToFloat :: "int \<Rightarrow> pyError + ieee" where
  "intToFloat n =
     (case rnd binary64 (of_int n) of
        Finite r \<Rightarrow> Inr (Finite r)
      | _ \<Rightarrow> Inl OverflowError)"

text \<open>\<^verbatim>\<open>int(x)\<close> of a float: OverflowError for an infinity, ValueError for not-a-number.\<close>

fun floatToInt :: "ieee \<Rightarrow> pyError + int" where
  "floatToInt (Finite x) = Inr (pyInt x)"
| "floatToInt NaN = Inl ValueError"
| "floatToInt a = Inl OverflowError"

text \<open>
  Complex numbers of numpy are pairs of floats. The sum and the product are those of the
  loops of numpy: \<open>(a + bi)(c + di) = (ac - bd) + (ad + bc)i\<close>, each operation rounded.
  A real operand of a complex operation has the imaginary part zero.
\<close>

type_synonym cfloat = "ieee \<times> ieee"

definition cadd :: "format \<Rightarrow> cfloat \<Rightarrow> cfloat \<Rightarrow> cfloat" where
  "cadd f z w = (fadd f (fst z) (fst w), fadd f (snd z) (snd w))"

definition cmul :: "format \<Rightarrow> cfloat \<Rightarrow> cfloat \<Rightarrow> cfloat" where
  "cmul f z w =
     (fsub f (fmul f (fst z) (fst w)) (fmul f (snd z) (snd w)),
      fadd f (fmul f (fst z) (snd w)) (fmul f (snd z) (fst w)))"

definition ofReal :: "ieee \<Rightarrow> cfloat" where
  "ofReal a = (a, Finite 0)"

text \<open>
  \<^verbatim>\<open>np.abs\<close> of a complex number: infinite when a part is infinite, not-a-number when a
  part is and none is infinite, and the modulus rounded to the format otherwise.
\<close>

fun np_abs :: "format \<Rightarrow> cfloat \<Rightarrow> ieee" where
  "np_abs f (Finite x, Finite y) = rnd f (sqrt (x * x + y * y))"
| "np_abs f (a, b) =
     (if a \<in> {PosInf, NegInf} \<or> b \<in> {PosInf, NegInf} then PosInf else NaN)"

section \<open>Image Type tags\<close>

text \<open>
  The value of the DICOM tag Image Type as the reader hands it over: one string, or a
  multi-valued list of strings. Python's \<^verbatim>\<open>in\<close> is the substring test on the first
  and the membership test on the second.
\<close>

datatype tagValue = Single string | Multi "string list"

fun contains :: "string \<Rightarrow> tagValue \<Rightarrow> bool" where
  "contains t (Single s) = sublist t s"
| "contains t (Multi vs) = (t \<in> set vs)"

fun truthy :: "tagValue \<Rightarrow> bool" where
  "truthy (Single s) = (s \<noteq> [])"
| "truthy (Multi vs) = (vs \<noteq> [])"

text \<open>
  \<^verbatim>\<open>def typeTag2type(tagValue):
	for type in ['M','P','R','I']:
		if type in tagValue: return type
	return None\<close>
\<close>

fun typeTag2type_loop :: "string list \<Rightarrow> tagValue \<Rightarrow> string option" where
  "typeTag2type_loop [] tagValue = None"
| "typeTag2type_loop (type # types) tagValue =
     (if contains type tagValue then Some type else typeTag2type_loop types tagValue)"

definition typeTag2type :: "tagValue \<Rightarrow> string option" where
  "typeTag2type tagValue = typeTag2type_loop [''M'', ''P'', ''R'', ''I''] tagValue"

text \<open>
  The branch of \<^verbatim>\<open>getAttribute\<close> for \<^verbatim>\<open>attr == 'Image Type'\<close>; the argument is what
  \<^verbatim>\<open>getTagValue\<close> returned (\<open>None\<close> when the tag is absent):
  \<^verbatim>\<open>elif attr == 'Image Type' and attribute: attribute = typeTag2type(attribute)
	return attribute\<close>
  A falsy tag value is handed back as it is. A multi-valued tag holds at least two values
  when the reader builds it, so the falsy value that occurs is the empty string; a letter
  is a one-character string.
\<close>

definition getAttribute_ImageType :: "tagValue option \<Rightarrow> string option" where
  "getAttribute_ImageType attribute =
     (case attribute of
        None \<Rightarrow> None
      | Some tagValue \<Rightarrow> if truthy tagValue then typeTag2type tagValue else Some [])"

section \<open>Datasets and frames\<close>

text \<open>
  What the program reads from one DICOM dataset, or from one frame of a multi-frame
  dataset: the eight attributes of
  \<^verbatim>\<open>reqAttributes = ['Image Type','Echo Time','Slice Location','Imaging Frequency',
  'Columns','Rows','Pixel Spacing','Slice Thickness']\<close> as \<^verbatim>\<open>getAttribute\<close> returns them,
  the attributes Rescale Intercept and Rescale Slope, and the flattened pixel array.
  The files are those that \<^verbatim>\<open>getValidFiles\<close> lets through, so the numeric required
  attributes are present; Image Type is what \<open>getAttribute_ImageType\<close> returns and can
  be \<open>None\<close>. Decimal strings and 64-bit floats of the program are real numbers here.
\<close>

record attributes =
  ImageType :: "string option"
  EchoTime :: real
  SliceLocation :: real
  ImagingFrequency :: real
  Columns :: nat
  Rows :: nat
  PixelSpacing :: "real \<times> real"
  SliceThickness :: real
  RescaleIntercept :: "real option"
  RescaleSlope :: "real option"
  pixel_array :: "real list"

text \<open>
  \<^verbatim>\<open>dicom.read_file(file)\<close>: a single-frame dataset, or a multi-frame dataset with one
  entry for each item of its frame sequence. \<^verbatim>\<open>isMultiFrame(ds)\<close> tells them apart.
\<close>

datatype dataset = SingleFrame attributes | MultiFrame "attributes list"

type_synonym filesystem = "string \<Rightarrow> dataset"


text \<open>
  One entry of \<^verbatim>\<open>frameList\<close>,
  \<^verbatim>\<open>[file]+[frame]+[getAttribute(ds,attr,frame) for attr in reqAttributes]\<close>:
  \<^verbatim>\<open>tags[0]\<close> is the file, \<^verbatim>\<open>tags[1]\<close> the frame number (\<open>None\<close> in a single-frame
  file), \<^verbatim>\<open>tags[2]\<close> the image type, \<^verbatim>\<open>tags[3]\<close> the echo time, \<^verbatim>\<open>tags[4]\<close> the slice
  location, \<^verbatim>\<open>tags[5]\<close> the imaging frequency, \<^verbatim>\<open>tags[6]\<close> Columns, \<^verbatim>\<open>tags[7]\<close> Rows,
  \<^verbatim>\<open>tags[8]\<close> the pixel spacing and \<^verbatim>\<open>tags[9]\<close> the slice thickness.
\<close>

record frame =
  fileName :: string
  frameNo :: "nat option"
  imageType :: "string option"
  echoTime :: real
  sliceLocation :: real
  imagingFrequency :: real
  columns :: nat
  rows :: nat
  pixelSpacing :: "real \<times> real"
  sliceThickness :: real

definition mkFrame :: "string \<Rightarrow> nat option \<Rightarrow> attributes \<Rightarrow> frame" where
  "mkFrame f n a = \<lparr>fileName = f, frameNo = n, imageType = ImageType a,
     echoTime = EchoTime a, sliceLocation = SliceLocation a,
     imagingFrequency = ImagingFrequency a, columns = Columns a, rows = Rows a,
     pixelSpacing = PixelSpacing a, sliceThickness = SliceThickness a\<rparr>"

text \<open>
  The loop that opens \<^verbatim>\<open>isValidDataset\<close> and \<^verbatim>\<open>updateDataParamsDICOM\<close> alike:
  \<^verbatim>\<open>for file in files:
	ds = dicom.read_file(file,stop_before_pixels=True)
	multiframe = isMultiFrame(ds)
	if multiframe:
		if len(files)>1: raise Exception('Support for multiple multi-frame ...')
		for frame in range(len(ds[tagDict['Frame sequence']].value)):
			frameList.append([file]+[frame]+[getAttribute(ds,attr,frame) ...])
	else:
		frameList.append([file]+[None]+[getAttribute(ds,attr) ...])\<close>
  The first argument is \<^verbatim>\<open>len(files)\<close> of the whole list, the last two are
  \<^verbatim>\<open>frameList\<close> and \<^verbatim>\<open>multiframe\<close> so far. The result carries the \<^verbatim>\<open>multiframe\<close> of
  the last file, which \<^verbatim>\<open>updateDataParamsDICOM\<close> reads after the loop.
\<close>

definition fileFrames :: "filesystem \<Rightarrow> string \<Rightarrow> frame list" where
  "fileFrames fs f =
     (case fs f of
        MultiFrame as \<Rightarrow> map (\<lambda>n. mkFrame f (Some n) (as ! n)) [0..<length as]
      | SingleFrame a \<Rightarrow> [mkFrame f None a])"


datatype imgType = RI | MP | MRI

text \<open>\<^verbatim>\<open>typeTags.count(t)\<close> on \<^verbatim>\<open>typeTags = [tags[2] for tags in frameList]\<close>.\<close>

definition countType :: "string \<Rightarrow> frame list \<Rightarrow> nat" where
  "countType t frameList = length (filter (\<lambda>tags. imageType tags = Some t) frameList)"

text \<open>
  \<^verbatim>\<open>def getType(frameList, printType=False):
	...
	if numM+numP==0 and numR+numI>0 and numR==numI: return 'RI'
	elif numM+numP>0 and numR+numI==0 and numM==numP: return 'MP'
	elif numP==0 and numM+numR+numI>0 and numM==numR==numI: return 'MRI'
	else: raise Exception('Unknown combination of image types: ...')\<close>
  The decision on the four counts is \<open>classify\<close>.
\<close>

definition classify :: "nat \<Rightarrow> nat \<Rightarrow> nat \<Rightarrow> nat \<Rightarrow> pyError + imgType" where
  "classify numR numI numM numP =
     (if numM + numP = 0 \<and> numR + numI > 0 \<and> numR = numI then Inr RI
      else if numM + numP > 0 \<and> numR + numI = 0 \<and> numM = numP then Inr MP
      else if numP = 0 \<and> numM + numR + numI > 0 \<and> numM = numR \<and> numR = numI then Inr MRI
      else Inl (UnknownCombination numR numI numM numP))"

definition getType :: "frame list \<Rightarrow> pyError + imgType" where
  "getType frameList =
     (let numR = countType ''R'' frameList;
          numI = countType ''I'' frameList;
          numM = countType ''M'' frameList;
          numP = countType ''P'' frameList
      in classify numR numI numM numP)"

text \<open>A frame with nothing but its image type, for concrete frame lists.\<close>

definition typedFrame :: "string \<Rightarrow> frame" where
  "typedFrame t = \<lparr>fileName = [], frameNo = None, imageType = Some t, echoTime = 0,
     sliceLocation = 0, imagingFrequency = 0, columns = 0, rows = 0, pixelSpacing = (0, 0),
     sliceThickness = 0\<rparr>"

section \<open>The canonical order of the frames\<close>

text \<open>
  \<^verbatim>\<open>frameList.sort(key=lambda tags: tags[2]) #First, sort on type (M/P/R/I)
frameList.sort(key=lambda tags: tags[3]) #Second, sort on echo time
frameList.sort(key=lambda tags: tags[4]) #Third, sort on slice location\<close>
  Python's \<^verbatim>\<open>list.sort\<close> is stable, as \<open>sort_key\<close> is. The first sort compares image
  types: strings compare lexicographically by character code, and a comparison with
  \<^verbatim>\<open>None\<close> raises TypeError. A list of two or more entries compares every entry at
  least once; a shorter list compares nothing.
\<close>

definition typeKey :: "frame \<Rightarrow> string" where
  "typeKey tags = (case imageType tags of Some s \<Rightarrow> s | None \<Rightarrow> [])"

definition sortOnType :: "frame list \<Rightarrow> pyError + frame list" where
  "sortOnType frameList =
     (if length frameList \<ge> 2 \<and> (\<exists>tags \<in> set frameList. imageType tags = None)
      then Inl TypeError
      else Inr (sort_key typeKey frameList))"

definition sortFrames :: "frame list \<Rightarrow> pyError + frame list" where
  "sortFrames frameList =
     (case sortOnType frameList of
        Inl e \<Rightarrow> Inl e
      | Inr byType \<Rightarrow> Inr (sort_key sliceLocation (sort_key echoTime byType)))"

text \<open>The key of the canonical order: slice location, then echo time, then type.\<close>

definition canonicalKey :: "frame \<Rightarrow> real \<times> real \<times> string" where
  "canonicalKey tags = (sliceLocation tags, echoTime tags, typeKey tags)"

section \<open>The validator\<close>





text \<open>
  The conditions of the validator, on the frames of all files: a recognised combination
  of image types, three or more echo times, one imaging frequency, one image size, one
  voxel size and one slice thickness.
\<close>

definition framesOf :: "filesystem \<Rightarrow> string list \<Rightarrow> frame list" where
  "framesOf fs files = concat (map (fileFrames fs) files)"



section \<open>Data parameters from DICOM files\<close>


text \<open>
  \<^verbatim>\<open>np.diff\<close>, \<^verbatim>\<open>np.mean\<close>, \<^verbatim>\<open>np.max\<close> and \<^verbatim>\<open>np.min\<close> on a one-dimensional array. The
  maximum and the minimum of an empty array raise ValueError; its mean is not a number,
  and the program takes the maximum right after.
\<close>

definition np_diff :: "real list \<Rightarrow> real list" where
  "np_diff xs = map (\<lambda>(a, b). b - a) (zip xs (tl xs))"

definition np_mean :: "real list \<Rightarrow> real" where
  "np_mean xs = sum_list xs / of_nat (length xs)"

fun np_max :: "real list \<Rightarrow> pyError + real" where
  "np_max [] = Inl ValueError"
| "np_max (x # xs) = Inr (fold max xs x)"

fun np_min :: "real list \<Rightarrow> pyError + real" where
  "np_min [] = Inl ValueError"
| "np_min (x # xs) = Inr (fold min xs x)"

text \<open>
  \<^verbatim>\<open>np.max(np.diff(echoTimes))/dPar.dt>1.05 or np.min(np.diff(echoTimes))/dPar.dt<.95\<close>.
  These are numpy floats: a division by zero does not raise but gives an infinity with
  the sign of the numerator, or not-a-number for 0/0, which compares false.
\<close>

definition spacingVaries :: "real \<Rightarrow> real \<Rightarrow> real \<Rightarrow> bool" where
  "spacingVaries mx mn dt =
     (if dt = 0 then mx > 0 \<or> mn < 0
      else mx / dt > 1.05 \<or> mn / dt < 0.95)"

text \<open>
  The lines that both \<^verbatim>\<open>updateDataParamsDICOM\<close> and \<^verbatim>\<open>updateDataParamsMATLAB\<close> have:
  \<^verbatim>\<open>dPar.t1 = echoTimes[0]
dPar.dt = np.mean(np.diff(echoTimes))
if np.max(np.diff(echoTimes))/dPar.dt>1.05 or np.min(np.diff(echoTimes))/dPar.dt<.95:\<close>
  The result is \<open>t1\<close>, \<open>dt\<close> and the truth value of the condition.
\<close>

definition echoTiming :: "real list \<Rightarrow> pyError + real \<times> real \<times> bool" where
  "echoTiming echoTimes =
     (case echoTimes of
        [] \<Rightarrow> Inl IndexError
      | t # ts \<Rightarrow>
          andThen (np_max (np_diff echoTimes)) (\<lambda>mx.
          andThen (np_min (np_diff echoTimes)) (\<lambda>mn.
          Inr (t, np_mean (np_diff echoTimes),
               spacingVaries mx mn (np_mean (np_diff echoTimes))))))"


text \<open>
  The attributes that \<^verbatim>\<open>updateDataParamsDICOM\<close> and \<^verbatim>\<open>updateDataParamsMATLAB\<close> set.
  \<^verbatim>\<open>img\<close> has one row for each pair of an echo and a slice, echo by echo. \<^verbatim>\<open>B0\<close> is
  \<open>None\<close> when the attribute was never set, which the MATLAB path allows.
\<close>

record dataParams =
  dx :: real
  dy :: real
  dz :: real
  B0 :: "real option"
  totalN :: nat
  echoes :: "int list"
  N :: nat
  t1 :: real
  dt :: real
  sliceList :: "int list"
  nx :: nat
  ny :: nat
  nz :: nat
  frameList_of :: "frame list"
  img :: "complex list list"













section \<open>Data parameters from a MATLAB file\<close>










section \<open>Algorithm parameters\<close>

text \<open>
  The section 'algorithm parameters' of the configuration file, as \<^verbatim>\<open>readConfig\<close> hands
  it over: every key is present or not. A numeric value is the number that its string
  writes, an integer for the keys that \<^verbatim>\<open>int(...)\<close> reads and a decimal for those that
  \<^verbatim>\<open>float(...)\<close> reads, which rounds it to the nearest float; the flags are the strings of
  the file.
\<close>

record algoConfig =
  nr2 :: "int option"
  r2max :: "real option"
  r2cand :: "real list option"
  fibsearch :: "string option"
  mu_key :: "real option"
  nb0 :: "int option"
  nicmiter :: "int option"
  graphcut_key :: "string option"
  multiscale :: "string option"
  use3d :: "string option"

text \<open>
  The attributes that \<^verbatim>\<open>updateAlgoParams\<close> sets. \<^verbatim>\<open>iR2cand\<close> is built by
  \<^verbatim>\<open>np.array(list(set(...)))\<close>, whose order Python does not fix: it is a set here.
\<close>

record algoParams =
  nR2 :: int
  R2max :: ieee
  R2cand :: "ieee list"
  FibSearch :: bool
  mu :: ieee
  nB0 :: int
  nICMiter :: int
  graphcut :: bool
  graphcutLevel :: int
  multiScale :: bool
  use3D :: bool
  R2step :: ieee
  iR2cand :: "int set"
  nR2cand :: nat
  maxICMupdate :: int

text \<open>A flag is set when the key is present and its string is \<^verbatim>\<open>'True'\<close>.\<close>

definition flag :: "string option \<Rightarrow> bool" where
  "flag v = (case v of Some s \<Rightarrow> s = ''True'' | None \<Rightarrow> False)"

text \<open>
  \<^verbatim>\<open>if aPar.nR2>1: aPar.R2step = aPar.R2max/(aPar.nR2-1)
else: aPar.R2step = 1.0\<close>
  The integer \<^verbatim>\<open>aPar.nR2-1\<close> is converted to a float for the division.
\<close>

definition stepOf :: "int \<Rightarrow> ieee \<Rightarrow> pyError + ieee" where
  "stepOf nR2' R2max' =
     (if nR2' > 1 then andThen (intToFloat (nR2' - 1)) (\<lambda>d. pyDiv R2max' d)
      else Inr (Finite 1))"

text \<open>
  One element \<^verbatim>\<open>min(aPar.nR2-1,int(R2/aPar.R2step))\<close> of the list comprehension: the
  quotient of two floats, truncated.
\<close>

definition candidateIndex :: "int \<Rightarrow> ieee \<Rightarrow> ieee \<Rightarrow> pyError + int" where
  "candidateIndex nR2' R2step' R2 =
     andThen (pyDiv R2 R2step') (\<lambda>q.
     andThen (floatToInt q) (\<lambda>i.
     Inr (min (nR2' - 1) i)))"

text \<open>
  \<^verbatim>\<open>round(aPar.nB0/10)\<close>: the quotient of two integers is the nearest float to the exact
  quotient, and OverflowError when that is no finite float; \<^verbatim>\<open>round\<close> gives an integer.
\<close>

definition roundTenth :: "int \<Rightarrow> pyError + int" where
  "roundTenth n =
     (case rnd binary64 (of_int n / 10) of
        Finite q \<Rightarrow> Inr (pyRound q)
      | _ \<Rightarrow> Inl OverflowError)"

text \<open>\<^verbatim>\<open>def updateAlgoParams(aPar)\<close>.\<close>

definition updateAlgoParams :: "algoConfig \<Rightarrow> pyError + algoParams" where
  "updateAlgoParams aPar =
     (let nR2' = (case nr2 aPar of Some n \<Rightarrow> n | None \<Rightarrow> 1);
          R2max' = (case r2max aPar of Some r \<Rightarrow> pyFloat r | None \<Rightarrow> Finite 100);
          R2cand' = (case r2cand aPar of Some rs \<Rightarrow> map pyFloat rs | None \<Rightarrow> [Finite 0]);
          FibSearch' = flag (fibsearch aPar);
          mu' = (case mu_key aPar of Some m \<Rightarrow> pyFloat m | None \<Rightarrow> Finite 1);
          nB0' = (case nb0 aPar of Some n \<Rightarrow> n | None \<Rightarrow> 100);
          nICMiter' = (case nicmiter aPar of Some n \<Rightarrow> n | None \<Rightarrow> 0);
          graphcut' = flag (graphcut_key aPar);
          graphcutLevel' = 100 * (if \<not> graphcut' then 1 else 0);
          multiScale' = flag (multiscale aPar);
          use3D' = flag (use3d aPar)
      in andThen (stepOf nR2' R2max') (\<lambda>R2step'.
         andThen (mapM (candidateIndex nR2' R2step') R2cand') (\<lambda>indices.
         andThen (roundTenth nB0') (\<lambda>maxICMupdate'.
         Inr \<lparr>nR2 = nR2', R2max = R2max', R2cand = R2cand', FibSearch = FibSearch',
               mu = mu', nB0 = nB0', nICMiter = nICMiter', graphcut = graphcut',
               graphcutLevel = graphcutLevel', multiScale = multiScale',
               use3D = use3D', R2step = R2step', iR2cand = set indices,
               nR2cand = card (set indices),
               maxICMupdate = maxICMupdate'\<rparr>))))"

text \<open>
  A configuration with twelve values of R2* up to 100 per second, whose last candidate
  is the largest value.
\<close>

definition exampleAlgoConfig :: algoConfig where
  "exampleAlgoConfig = \<lparr>nr2 = Some 12, r2max = Some 100, r2cand = Some [0, 25, 27, 100, 200],
     fibsearch = Some ''true'', mu_key = None, nb0 = Some 25, nicmiter = None,
     graphcut_key = Some ''True'', multiscale = Some ''1'', use3d = None\<rparr>"

section \<open>Model parameters\<close>

text \<open>
  The section 'model parameters' of the configuration file, with the numeric values taken
  as parsed. \<^verbatim>\<open>configparser\<close> turns every key into lower case, so that the object holds
  no key \<^verbatim>\<open>P2U\<close>, \<^verbatim>\<open>CL\<close> or \<^verbatim>\<open>alpha\<close> before \<^verbatim>\<open>updateModelParams\<close> sets it.
\<close>

record modelConfig =
  watcs :: "real option"
  fatcs :: "real list option"
  nfac :: "int option"
  cl :: "real option"
  p2u :: "real option"
  relamps :: "real list option"

text \<open>
  The object after \<^verbatim>\<open>updateModelParams\<close>: the keys of the file (\<^verbatim>\<open>mPar.p2u = 0.2\<close>
  adds the key \<^verbatim>\<open>p2u\<close>) and the attributes that were set. \<^verbatim>\<open>alpha\<close> is the matrix as
  the list of its rows; 32-bit floats are real numbers here.
\<close>

record modelParams =
  keys :: modelConfig
  CS :: "real list"
  P :: nat
  nFAC :: int
  M :: int
  CL :: "real option"
  P2U :: "real option"
  alpha :: "real list list"

text \<open>\<^verbatim>\<open>np.zeros([M,P])\<close> with \<^verbatim>\<open>alpha[0,0]=1.\<close>\<close>

definition waterAlpha :: "nat \<Rightarrow> nat \<Rightarrow> real list list" where
  "waterAlpha m p = ((replicate p 0)[0 := 1]) # replicate (m - 1) (replicate p 0)"

text \<open>
  \<^verbatim>\<open>for (p,a) in enumerate(mPar.relamps.split(',')):
	mPar.alpha[1,p+1]=float(a)\<close>
  on row 1; an index beyond the row raises IndexError.
\<close>

fun setRelamps :: "real list \<Rightarrow> nat \<Rightarrow> real list \<Rightarrow> pyError + real list" where
  "setRelamps row p [] = Inr row"
| "setRelamps row p (a # as) =
     (if p + 1 < length row then setRelamps (row[p + 1 := a]) (p + 1) as
      else Inl IndexError)"

text \<open>
  \<^verbatim>\<open>for p in range(mPar.P):
	mPar.alpha[1,p] = float(1/len(fatCS))\<close>
  on row 1; \<^verbatim>\<open>1/len(fatCS)\<close> raises ZeroDivisionError for an empty list.
\<close>

fun setUniform :: "real list \<Rightarrow> nat list \<Rightarrow> nat \<Rightarrow> pyError + real list" where
  "setUniform row [] n = Inr row"
| "setUniform row (p # ps) n =
     (if n = 0 then Inl ZeroDivisionError
      else setUniform (row[p := 1 / of_nat n]) ps n)"

text \<open>
  \<^verbatim>\<open>def getFACalphas(CL=None,P2U=None,UD=None)\<close>: the number of components is two plus
  the number of absent arguments, and each case computes with the arguments it takes as
  given; arithmetic on \<^verbatim>\<open>None\<close> raises TypeError.
\<close>

definition getFACalphas ::
  "real option \<Rightarrow> real option \<Rightarrow> real option \<Rightarrow> pyError + real list list"
where
  "getFACalphas CL' P2U' UD' =
     (let M' = length (filter (\<lambda>v. v = None) [CL', UD', P2U']) + 2;
          water = 1 # replicate 10 0
      in if M' = 2 then
           (case (CL', P2U', UD') of
              (Some c, Some q, Some u) \<Rightarrow>
                Inr [water,
                     [0, 9, 6 * (c - 4) + u * (2 * q - 8), 6, 4 * u, 6, 2 * u * q, 2, 2, 1,
                      u * (2 * q + 2)]]
            | _ \<Rightarrow> Inl TypeError)
         else if M' = 3 then
           (case (CL', P2U') of
              (Some c, Some q) \<Rightarrow>
                Inr [water,
                     [0, 9, 6 * (c - 4), 6, 0, 6, 0, 2, 2, 1, 0],
                     [0, 0, 2 * q - 8, 0, 4, 0, 2 * q, 0, 0, 0, 2 * q + 2]]
            | _ \<Rightarrow> Inl TypeError)
         else if M' = 4 then
           (case CL' of
              Some c \<Rightarrow>
                Inr [water,
                     [0, 9, 6 * (c - 4), 6, 0, 6, 0, 2, 2, 1, 0],
                     [0, 0, - 8, 0, 4, 0, 0, 0, 0, 0, 2],
                     [0, 0, 2, 0, 0, 0, 2, 0, 0, 0, 2]]
            | None \<Rightarrow> Inl TypeError)
         else
           Inr [water,
                [0, 9, 0, 6, 0, 6, 0, 2, 2, 1, 0],
                [0, 0, 2, 0, 0, 0, 0, 0, 0, 0, 0],
                [0, 0, 0, 0, 4, 0, 0, 0, 0, 0, 2],
                [0, 0, 0, 0, 0, 0, 2, 0, 0, 0, 2]])"

text \<open>
  \<^verbatim>\<open>def updateModelParams(mPar)\<close>. Reading an attribute that was never set raises
  AttributeError: with \<^verbatim>\<open>nFAC == 1\<close> and no key \<^verbatim>\<open>p2u\<close> the program sets \<^verbatim>\<open>mPar.p2u\<close>
  and then reads \<^verbatim>\<open>mPar.P2U\<close>.
\<close>

definition updateModelParams :: "modelConfig \<Rightarrow> pyError + modelParams" where
  "updateModelParams mPar =
     (let watCS = (case watcs mPar of Some w \<Rightarrow> [w] | None \<Rightarrow> [4.7]);
          fatCS = (case fatcs mPar of Some cs \<Rightarrow> cs | None \<Rightarrow> [1.3]);
          CS' = watCS @ fatCS;
          P' = length CS';
          nFAC' = (case nfac mPar of Some n \<Rightarrow> n | None \<Rightarrow> 0)
      in if nFAC' > 0 \<and> P' \<noteq> 11 then Inl FACResonances
         else
           let M' = 2 + nFAC';
               CL' = (if nFAC' = 1 \<or> nFAC' = 2
                      then Some (case cl mPar of Some c \<Rightarrow> c | None \<Rightarrow> 17.4) else None);
               P2U' = (if nFAC' = 1 then p2u mPar else None);
               keys' = (if nFAC' = 1 \<and> p2u mPar = None then mPar\<lparr>p2u := Some 0.2\<rparr>
                        else mPar);
               alpha' =
                 (if nFAC' = 0 then
                    (let zeros = waterAlpha (nat M') P'
                     in case (case relamps mPar of
                                Some as \<Rightarrow> setRelamps (zeros ! 1) 0 as
                              | None \<Rightarrow> setUniform (zeros ! 1) [0..<P'] (length fatCS)) of
                          Inl e \<Rightarrow> Inl e
                        | Inr row1 \<Rightarrow> Inr (zeros[1 := row1]))
                  else if nFAC' = 1 then
                    (case P2U' of
                       None \<Rightarrow> Inl (AttributeError ''P2U'')
                     | Some q \<Rightarrow> getFACalphas CL' (Some q) None)
                  else if nFAC' = 2 then getFACalphas CL' None None
                  else if nFAC' = 3 then getFACalphas None None None
                  else Inl (UnknownNumberOfFAC nFAC'))
           in case alpha' of
                Inl e \<Rightarrow> Inl e
              | Inr a \<Rightarrow> Inr \<lparr>keys = keys', CS = CS', P = P', nFAC = nFAC', M = M',
                                CL = CL', P2U = P2U', alpha = a\<rparr>)"

definition defaultModelConfig :: modelConfig where
  "defaultModelConfig = \<lparr>watcs = None, fatcs = None, nfac = None, cl = None, p2u = None,
     relamps = None\<rparr>"

definition facModelConfig :: modelConfig where
  "facModelConfig = \<lparr>watcs = None,
     fatcs = Some [0.9, 1.3, 1.59, 2.03, 2.25, 2.77, 4.1, 4.3, 5.21, 5.31],
     nfac = Some 1, cl = None, p2u = None, relamps = None\<rparr>"

section \<open>Fat fraction\<close>

text \<open>\<^verbatim>\<open>sys.float_info.epsilon\<close>, the distance from 1.0 to the next float.\<close>

definition eps :: real where
  "eps = 1 / 2 ^ 52"

text \<open>
  \<^verbatim>\<open>fat += block\<close> on arrays: element by element, in place, so that the block has the
  length of \<^verbatim>\<open>fat\<close> or one element; anything else raises ValueError. \<^verbatim>\<open>fat\<close> is an
  array of \<^verbatim>\<open>complex128\<close>: the sum is one of 64-bit floats.
\<close>

definition addBlock :: "cfloat list \<Rightarrow> cfloat list \<Rightarrow> pyError + cfloat list" where
  "addBlock fat block =
     (if length block = length fat
      then Inr (map (\<lambda>(f, b). cadd binary64 f b) (zip fat block))
      else if length block = 1 then Inr (map (\<lambda>f. cadd binary64 f (hd block)) fat)
      else Inl ValueError)"

text \<open>
  \<^verbatim>\<open>sum(alpha[m,1:])\<close> is Python's \<^verbatim>\<open>sum\<close> over the 32-bit floats of the row: it starts
  from the integer 0 and adds the elements from the left. The first sum of the integer
  and a 32-bit float is a 64-bit float, and so are all that follow.
\<close>

definition rowWeight :: "real list \<Rightarrow> ieee" where
  "rowWeight row = foldl (fadd binary64) (Finite 0) (map Finite (drop 1 row))"

text \<open>
  \<^verbatim>\<open>sum(alpha[m,1:])*X[m*nVxl:(m+1)*nVxl]\<close>: the product of a scalar and an array of
  \<^verbatim>\<open>complex64\<close> is computed in \<^verbatim>\<open>complex64\<close>, with the scalar rounded to a 32-bit
  float.
\<close>

definition weighted :: "ieee \<Rightarrow> cfloat \<Rightarrow> cfloat" where
  "weighted w x = cmul binary32 (ofReal (cast binary32 w)) x"

text \<open>
  \<^verbatim>\<open>def getFat(X,nVxl,alpha):
	fat = np.zeros(nVxl)+1j*np.zeros(nVxl)
	for m in range(1,alpha.shape[0]):
		fat += sum(alpha[m,1:])*X[m*nVxl:(m+1)*nVxl]
	return fat\<close>
\<close>

fun getFat_loop ::
  "cfloat list \<Rightarrow> nat \<Rightarrow> real list list \<Rightarrow> nat list \<Rightarrow> cfloat list \<Rightarrow> pyError + cfloat list"
where
  "getFat_loop X nVxl alpha' [] fat = Inr fat"
| "getFat_loop X nVxl alpha' (m # ms) fat =
     andThen (addBlock fat
                (map (weighted (rowWeight (alpha' ! m))) (take nVxl (drop (m * nVxl) X))))
       (getFat_loop X nVxl alpha' ms)"

definition getFat :: "cfloat list \<Rightarrow> nat \<Rightarrow> real list list \<Rightarrow> pyError + cfloat list" where
  "getFat X nVxl alpha' =
     getFat_loop X nVxl alpha' [1..<length alpha'] (replicate nVxl (Finite 0, Finite 0))"

text \<open>
  One voxel of \<^verbatim>\<open>ff = np.abs(fat[:])/(np.abs(wat[:])+np.abs(fat[:])+eps)\<close>, from the two
  magnitudes: two additions and a division of 64-bit floats.
\<close>

definition ffVoxel :: "ieee \<Rightarrow> ieee \<Rightarrow> ieee" where
  "ffVoxel aw af = fdiv binary64 af (fadd binary64 (fadd binary64 aw af) (Finite eps))"

text \<open>
  The lines of \<^verbatim>\<open>processDataset\<close> that follow the call of the solver, from the array
  \<^verbatim>\<open>X\<close> of \<^verbatim>\<open>complex64\<close> that holds its output:
  \<^verbatim>\<open>wat = X[0*nVxl:1*nVxl]
fat = getFat(X,nVxl,mPar.alpha)
ff = np.abs(fat[:])/(np.abs(wat[:])+np.abs(fat[:])+eps)\<close>
  The magnitude of \<^verbatim>\<open>wat\<close> is a 32-bit float, that of \<^verbatim>\<open>fat\<close> a 64-bit float.
\<close>

definition fatFraction :: "cfloat list \<Rightarrow> nat \<Rightarrow> real list list \<Rightarrow> pyError + ieee list" where
  "fatFraction X nVxl alpha' =
     (let wat = take nVxl X
      in andThen (getFat X nVxl alpha') (\<lambda>fat.
         andThen (broadcast (map (np_abs binary32) wat) (map (np_abs binary64) fat))
           (\<lambda>magnitudes.
         Inr (map (\<lambda>(aw, af). ffVoxel aw af) magnitudes))))"

section \<open>A synthetic dataset\<close>

text \<open>
  Six single-frame files: a magnitude and a phase frame at each of three echo times, one
  slice, one voxel, uniform geometry. The magnitude is 100, the phase 512, and the phase
  frames carry the rescale intercept -2048.
\<close>

definition magnitudeFrame :: "real \<Rightarrow> attributes" where
  "magnitudeFrame te = \<lparr>ImageType = Some ''M'', EchoTime = te, SliceLocation = 0,
     ImagingFrequency = 63.87, Columns = 1, Rows = 1, PixelSpacing = (1.5, 1.5),
     SliceThickness = 5, RescaleIntercept = Some 0, RescaleSlope = Some 1,
     pixel_array = [100]\<rparr>"

definition phaseFrame :: "real \<Rightarrow> attributes" where
  "phaseFrame te = \<lparr>ImageType = Some ''P'', EchoTime = te, SliceLocation = 0,
     ImagingFrequency = 63.87, Columns = 1, Rows = 1, PixelSpacing = (1.5, 1.5),
     SliceThickness = 5, RescaleIntercept = Some (- 2048), RescaleSlope = Some 1,
     pixel_array = [512]\<rparr>"

definition exampleFS :: "real \<Rightarrow> real \<Rightarrow> real \<Rightarrow> filesystem" where
  "exampleFS te0 te1 te2 f =
     (if f = ''m0'' then SingleFrame (magnitudeFrame te0)
      else if f = ''p0'' then SingleFrame (phaseFrame te0)
      else if f = ''m1'' then SingleFrame (magnitudeFrame te1)
      else if f = ''p1'' then SingleFrame (phaseFrame te1)
      else if f = ''m2'' then SingleFrame (magnitudeFrame te2)
      else if f = ''p2'' then SingleFrame (phaseFrame te2)
      else MultiFrame [magnitudeFrame te0, phaseFrame te0])"

definition exampleFiles :: "string list" where
  "exampleFiles = [''p2'', ''m0'', ''p1'', ''m2'', ''p0'', ''m1'']"



section \<open>Classification\<close>

lemma classify_RI_iff:
  "classify r i m p = Inr RI \<longleftrightarrow> m + p = 0 \<and> r + i > 0 \<and> r = i"
  by (auto simp: classify_def)

lemma classify_MP_iff:
  "classify r i m p = Inr MP \<longleftrightarrow> r + i = 0 \<and> m + p > 0 \<and> m = p"
  by (auto simp: classify_def)

lemma classify_MRI_iff:
  "classify r i m p = Inr MRI \<longleftrightarrow> p = 0 \<and> m + r + i > 0 \<and> m = r \<and> r = i"
  by (auto simp: classify_def)

lemma classify_error_iff:
  "(\<exists>e. classify r i m p = Inl e) \<longleftrightarrow>
     \<not> (m + p = 0 \<and> r + i > 0 \<and> r = i) \<and>
     \<not> (r + i = 0 \<and> m + p > 0 \<and> m = p) \<and>
     \<not> (p = 0 \<and> m + r + i > 0 \<and> m = r \<and> r = i)"
  by (auto simp: classify_def)

text \<open>
  Claim C1. Classification is total and exclusive. With R, I, M, P the numbers of frames
  typed Real, Imaginary, Magnitude and Phase, \<open>getType\<close> returns RI exactly when
  M+P=0, R+I>0 and R=I, returns MP exactly when R+I=0, M+P>0 and M=P, returns MRI exactly
  when P=0, M+R+I>0 and M=R=I, and raises the classification error exactly when none of
  the three conditions holds; these are the only four outcomes, and no two of the three
  conditions hold together. Two magnitude and two phase frames give MP; one frame of each
  of the four types raises.
\<close>

theorem getType_total_exclusive:
  fixes frameList :: "frame list"
  defines "numR \<equiv> countType ''R'' frameList" and "numI \<equiv> countType ''I'' frameList"
    and "numM \<equiv> countType ''M'' frameList" and "numP \<equiv> countType ''P'' frameList"
  shows "(getType frameList = Inr RI \<longleftrightarrow> numM + numP = 0 \<and> numR + numI > 0 \<and> numR = numI) \<and>
         (getType frameList = Inr MP \<longleftrightarrow> numR + numI = 0 \<and> numM + numP > 0 \<and> numM = numP) \<and>
         (getType frameList = Inr MRI \<longleftrightarrow> numP = 0 \<and> numM + numR + numI > 0 \<and> numM = numR \<and> numR = numI) \<and>
         (getType frameList = Inl (UnknownCombination numR numI numM numP) \<longleftrightarrow>
            \<not> (numM + numP = 0 \<and> numR + numI > 0 \<and> numR = numI) \<and>
            \<not> (numR + numI = 0 \<and> numM + numP > 0 \<and> numM = numP) \<and>
            \<not> (numP = 0 \<and> numM + numR + numI > 0 \<and> numM = numR \<and> numR = numI)) \<and>
         getType frameList \<in> {Inr RI, Inr MP, Inr MRI, Inl (UnknownCombination numR numI numM numP)} \<and>
         \<not> ((numM + numP = 0 \<and> numR + numI > 0 \<and> numR = numI) \<and> (numR + numI = 0 \<and> numM + numP > 0 \<and> numM = numP)) \<and>
         \<not> ((numM + numP = 0 \<and> numR + numI > 0 \<and> numR = numI) \<and> (numP = 0 \<and> numM + numR + numI > 0 \<and> numM = numR \<and> numR = numI)) \<and>
         \<not> ((numR + numI = 0 \<and> numM + numP > 0 \<and> numM = numP) \<and> (numP = 0 \<and> numM + numR + numI > 0 \<and> numM = numR \<and> numR = numI)) \<and>
         getType (map typedFrame [''M'', ''M'', ''P'', ''P'']) = Inr MP \<and>
         getType (map typedFrame [''M'', ''P'', ''R'', ''I'']) = Inl (UnknownCombination 1 1 1 1)"
proof -
  have g: "getType frameList = classify numR numI numM numP"
    by (simp add: getType_def Let_def numR_def numI_def numM_def numP_def)
  have e: "classify numR numI numM numP = Inl (UnknownCombination numR numI numM numP) \<longleftrightarrow> (\<exists>e. classify numR numI numM numP = Inl e)"
    by (auto simp: classify_def)
  have m: "classify numR numI numM numP \<in> {Inr RI, Inr MP, Inr MRI, Inl (UnknownCombination numR numI numM numP)}"
    by (simp add: classify_def)
  have x1: "\<not> ((numM + numP = 0 \<and> numR + numI > 0 \<and> numR = numI) \<and> (numR + numI = 0 \<and> numM + numP > 0 \<and> numM = numP))"
    by arith
  have x2: "\<not> ((numM + numP = 0 \<and> numR + numI > 0 \<and> numR = numI) \<and> (numP = 0 \<and> numM + numR + numI > 0 \<and> numM = numR \<and> numR = numI))"
    by arith
  have x3: "\<not> ((numR + numI = 0 \<and> numM + numP > 0 \<and> numM = numP) \<and> (numP = 0 \<and> numM + numR + numI > 0 \<and> numM = numR \<and> numR = numI))"
    by arith
  have ex1: "getType (map typedFrame [''M'', ''M'', ''P'', ''P'']) = Inr MP"
    by (simp add: getType_def Let_def classify_def countType_def typedFrame_def)
  have ex2: "getType (map typedFrame [''M'', ''P'', ''R'', ''I'']) = Inl (UnknownCombination 1 1 1 1)"
    by (simp add: getType_def Let_def classify_def countType_def typedFrame_def)
  show ?thesis
    unfolding g e
    using classify_RI_iff [of numR numI numM numP] classify_MP_iff [of numR numI numM numP] classify_MRI_iff [of numR numI numM numP]
      classify_error_iff [of numR numI numM numP] m x1 x2 x3 ex1 ex2
    by blast
qed

section \<open>Decoding the Image Type tag\<close>

lemma typeTag2type_chain:
  "typeTag2type tv =
     (if contains ''M'' tv then Some ''M''
      else if contains ''P'' tv then Some ''P''
      else if contains ''R'' tv then Some ''R''
      else if contains ''I'' tv then Some ''I''
      else None)"
  by (simp add: typeTag2type_def)


text \<open>
  Claim C9. \<open>typeTag2type\<close> returns the first of the letters M, P, R, I, tried in this
  order, that the tag value contains, and \<open>None\<close> when it contains none of them. A tag
  value that contains both M and P is decoded as M. \<open>getAttribute\<close> hands this letter
  on for every truthy tag value, and two tag values that contain the same ones of the
  four letters are decoded alike, whatever else they hold.
\<close>

theorem typeTag2type_priority:
  "typeTag2type tv =
     (if contains ''M'' tv then Some ''M''
      else if contains ''P'' tv then Some ''P''
      else if contains ''R'' tv then Some ''R''
      else if contains ''I'' tv then Some ''I''
      else None) \<and>
   (contains ''M'' tv \<and> contains ''P'' tv \<longrightarrow> typeTag2type tv = Some ''M'') \<and>
   (truthy tv \<longrightarrow> getAttribute_ImageType (Some tv) = typeTag2type tv) \<and>
   ((\<forall>t \<in> set [''M'', ''P'', ''R'', ''I'']. contains t tv = contains t tv') \<longrightarrow>
      typeTag2type tv = typeTag2type tv')"
  by (simp add: typeTag2type_chain getAttribute_ImageType_def)

theorem typeTag2type_priority_witness:
  "contains ''M'' (Multi [''ORIGINAL'', ''PRIMARY'', ''M'', ''P'']) \<and>
   contains ''P'' (Multi [''ORIGINAL'', ''PRIMARY'', ''M'', ''P'']) \<and>
   truthy (Multi [''ORIGINAL'', ''PRIMARY'', ''M'', ''P'']) \<and>
   contains ''M'' (Multi [''P'', ''M'']) \<and> contains ''P'' (Multi [''P'', ''M'']) \<and>
   \<not> contains ''R'' (Multi [''ORIGINAL'', ''PRIMARY'', ''M'', ''P'']) \<and>
   \<not> contains ''R'' (Multi [''P'', ''M'']) \<and>
   \<not> contains ''I'' (Multi [''ORIGINAL'', ''PRIMARY'', ''M'', ''P'']) \<and>
   \<not> contains ''I'' (Multi [''P'', ''M'']) \<and>
   typeTag2type (Multi [''ORIGINAL'', ''PRIMARY'', ''M'', ''P'']) = Some ''M'' \<and>
   getAttribute_ImageType (Some (Multi [''ORIGINAL'', ''PRIMARY'', ''M'', ''P''])) = Some ''M'' \<and>
   typeTag2type (Multi [''P'', ''M'']) = Some ''M''"
  using typeTag2type_priority [of "Multi [''ORIGINAL'', ''PRIMARY'', ''M'', ''P'']" "Multi [''P'', ''M'']"]
  by auto

section \<open>The synthetic dataset, evaluated\<close>

lemma ex_frames: "framesOf (exampleFS 2.3 4.6 6.9) exampleFiles =
  [mkFrame ''p2'' None (phaseFrame 6.9), mkFrame ''m0'' None (magnitudeFrame 2.3),
   mkFrame ''p1'' None (phaseFrame 4.6), mkFrame ''m2'' None (magnitudeFrame 6.9),
   mkFrame ''p0'' None (phaseFrame 2.3), mkFrame ''m1'' None (magnitudeFrame 4.6)]"
  by (simp add: framesOf_def exampleFiles_def exampleFS_def fileFrames_def)



lemma ex_sorted: "sortFrames (framesOf (exampleFS 2.3 4.6 6.9) exampleFiles) =
  Inr [mkFrame ''m0'' None (magnitudeFrame 2.3), mkFrame ''p0'' None (phaseFrame 2.3),
       mkFrame ''m1'' None (magnitudeFrame 4.6), mkFrame ''p1'' None (phaseFrame 4.6),
       mkFrame ''m2'' None (magnitudeFrame 6.9), mkFrame ''p2'' None (phaseFrame 6.9)]"
  unfolding ex_frames
  by (simp add: sortFrames_def sortOnType_def typeKey_def mkFrame_def magnitudeFrame_def phaseFrame_def)



section \<open>Sorting\<close>

lemma sorted_lex_pair:
  fixes f :: "'a \<Rightarrow> 'b::linorder" and g :: "'a \<Rightarrow> 'c::linorder"
  shows "sorted (map (\<lambda>x. (f x, g x)) xs) \<longleftrightarrow>
         sorted (map f xs) \<and> (\<forall>k. sorted (map g (filter (\<lambda>x. f x = k) xs)))"
proof (induction xs)
  case Nil
  then show ?case by simp
next
  case (Cons x xs)
  have "(\<forall>y\<in>set xs. (f x, g x) \<le> (f y, g y)) \<longleftrightarrow>
        (\<forall>y\<in>set xs. f x \<le> f y) \<and> (\<forall>y\<in>set xs. f y = f x \<longrightarrow> g x \<le> g y)"
    by (auto simp: less_eq_prod_def)
  with Cons show ?case by auto
qed

lemma sort_key_twice:
  fixes f :: "'a \<Rightarrow> 'b::linorder" and g :: "'a \<Rightarrow> 'c::linorder"
  shows "sort_key f (sort_key g xs) = sort_key (\<lambda>x. (f x, g x)) xs"
proof (rule sym, rule properties_for_sort_key)
  show "mset (sort_key f (sort_key g xs)) = mset xs" by simp
next
  fix k
  have "filter (\<lambda>x. (f k, g k) = (f x, g x)) (sort_key f (sort_key g xs)) =
        filter (\<lambda>x. g x = g k) (filter (\<lambda>x. f x = f k) (sort_key f (sort_key g xs)))"
    by (auto intro: filter_cong)
  also have "\<dots> = filter (\<lambda>x. g x = g k) (filter (\<lambda>x. f x = f k) (sort_key g xs))"
    by (simp only: sort_key_stable)
  also have "\<dots> = filter (\<lambda>x. f x = f k) (filter (\<lambda>x. g x = g k) (sort_key g xs))"
    by (auto intro: filter_cong)
  also have "\<dots> = filter (\<lambda>x. f x = f k) (filter (\<lambda>x. g x = g k) xs)"
    by (simp only: sort_key_stable)
  also have "\<dots> = filter (\<lambda>x. (f k, g k) = (f x, g x)) xs"
    by (auto intro: filter_cong)
  finally show "filter (\<lambda>x. (f k, g k) = (f x, g x)) (sort_key f (sort_key g xs)) =
        filter (\<lambda>x. (f k, g k) = (f x, g x)) xs" .
next
  have "sorted (map g (filter (\<lambda>x. f x = k) (sort_key f (sort_key g xs))))" for k
    by (simp only: sort_key_stable) (simp add: sorted_filter)
  then show "sorted (map (\<lambda>x. (f x, g x)) (sort_key f (sort_key g xs)))"
    by (simp add: sorted_lex_pair)
qed

lemma map_sort_key: "map f (sort_key f xs) = sort (map f xs)"
  by (rule sym, rule properties_for_sort) (simp_all)

lemma three_sorts:
  "sort_key sliceLocation (sort_key echoTime (sort_key typeKey frameList)) =
   sort_key canonicalKey frameList"
proof -
  have k: "canonicalKey = (\<lambda>tags. (sliceLocation tags, echoTime tags, typeKey tags))"
    by (rule ext) (simp add: canonicalKey_def)
  show ?thesis
    unfolding k sort_key_twice [of echoTime typeKey] sort_key_twice [of sliceLocation] ..
qed

lemma sortFrames_Inr:
  "sortFrames frameList = Inr c \<longleftrightarrow>
     \<not> (length frameList \<ge> 2 \<and> (\<exists>tags\<in>set frameList. imageType tags = None)) \<and>
     c = sort_key canonicalKey frameList"
  by (auto simp: sortFrames_def sortOnType_def three_sorts)

lemma canonical_keys_permutation:
  assumes "mset other = mset frameList"
  shows "map canonicalKey (sort_key canonicalKey other) =
         map canonicalKey (sort_key canonicalKey frameList)"
proof -
  have "mset (map canonicalKey other) = mset (map canonicalKey frameList)"
    using assms by (metis mset_map)
  then have "sort (map canonicalKey frameList) = sort (map canonicalKey other)"
    by (intro properties_for_sort) simp_all
  then show ?thesis by (simp add: map_sort_key)
qed

text \<open>
  Claim C2. The three successive stable sorts of \<open>updateDataParamsDICOM\<close>, on type, then
  on echo time, then on slice location, are one stable sort on the triple (slice location,
  echo time, type) in lexicographic order: the result is a permutation of the frame list
  that is ordered first by slice location, then by echo time, then by type. For every
  permutation of the same frames the sorts succeed as well and the sequence of
  (slice, echo, type) keys of the result is the same. (Frames that agree on all three keys
  keep their input order, so only the keys, not the file names, are independent of the
  input order.)
\<close>

theorem sortFrames_canonical:
  assumes "sortFrames frameList = Inr canonical"
  shows "canonical = sort_key sliceLocation (sort_key echoTime (sort_key typeKey frameList)) \<and>
         canonical = sort_key canonicalKey frameList \<and>
         sorted (map canonicalKey canonical) \<and>
         mset canonical = mset frameList \<and>
         (\<forall>other. mset other = mset frameList \<longrightarrow>
            (\<exists>c. sortFrames other = Inr c \<and> map canonicalKey c = map canonicalKey canonical))"
proof -
  from assms have ok: "\<not> (length frameList \<ge> 2 \<and> (\<exists>tags\<in>set frameList. imageType tags = None))"
    and c: "canonical = sort_key canonicalKey frameList"
    by (simp_all add: sortFrames_Inr)
  have "\<exists>c. sortFrames other = Inr c \<and> map canonicalKey c = map canonicalKey canonical"
    if m: "mset other = mset frameList" for other
  proof -
    from m have "length other = length frameList" "set other = set frameList"
      by (auto dest: mset_eq_length mset_eq_setD)
    with ok have "sortFrames other = Inr (sort_key canonicalKey other)"
      by (simp add: sortFrames_Inr)
    with canonical_keys_permutation [OF m] c show ?thesis by simp
  qed
  with c show ?thesis by (simp add: three_sorts)
qed

theorem sortFrames_canonical_witness:
  "sortFrames (framesOf (exampleFS 2.3 4.6 6.9) exampleFiles) =
     Inr [mkFrame ''m0'' None (magnitudeFrame 2.3), mkFrame ''p0'' None (phaseFrame 2.3),
          mkFrame ''m1'' None (magnitudeFrame 4.6), mkFrame ''p1'' None (phaseFrame 4.6),
          mkFrame ''m2'' None (magnitudeFrame 6.9), mkFrame ''p2'' None (phaseFrame 6.9)] \<and>
   sorted (map canonicalKey
         [mkFrame ''m0'' None (magnitudeFrame 2.3), mkFrame ''p0'' None (phaseFrame 2.3),
          mkFrame ''m1'' None (magnitudeFrame 4.6), mkFrame ''p1'' None (phaseFrame 4.6),
          mkFrame ''m2'' None (magnitudeFrame 6.9), mkFrame ''p2'' None (phaseFrame 6.9)]) \<and>
   mset (rev (framesOf (exampleFS 2.3 4.6 6.9) exampleFiles)) =
     mset (framesOf (exampleFS 2.3 4.6 6.9) exampleFiles) \<and>
   (\<exists>c. sortFrames (rev (framesOf (exampleFS 2.3 4.6 6.9) exampleFiles)) = Inr c \<and>
        map canonicalKey c = map canonicalKey
         [mkFrame ''m0'' None (magnitudeFrame 2.3), mkFrame ''p0'' None (phaseFrame 2.3),
          mkFrame ''m1'' None (magnitudeFrame 4.6), mkFrame ''p1'' None (phaseFrame 4.6),
          mkFrame ''m2'' None (magnitudeFrame 6.9), mkFrame ''p2'' None (phaseFrame 6.9)])"
proof -
  have m: "mset (rev (framesOf (exampleFS 2.3 4.6 6.9) exampleFiles)) =
     mset (framesOf (exampleFS 2.3 4.6 6.9) exampleFiles)"
    by simp
  from sortFrames_canonical [OF ex_sorted] m ex_sorted show ?thesis
    by blast
qed

section \<open>Sequencing, derived\<close>

lemma andThen_Inr: "andThen m f = Inr y \<longleftrightarrow> (\<exists>x. m = Inr x \<and> f x = Inr y)"
  by (cases m) (simp_all add: andThen_def)

lemma andThen_Inl: "andThen m f = Inl e \<longleftrightarrow> m = Inl e \<or> (\<exists>x. m = Inr x \<and> f x = Inl e)"
  by (cases m) (simp_all add: andThen_def)

lemma mapM_Inr:
  "mapM f xs = Inr ys \<Longrightarrow> length ys = length xs \<and> (\<forall>k<length xs. f (xs ! k) = Inr (ys ! k))"
proof (induction xs arbitrary: ys)
  case Nil
  then show ?case by simp
next
  case (Cons x xs)
  from Cons.prems obtain y ys' where y: "f x = Inr y" and ys': "mapM f xs = Inr ys'"
    and ys: "ys = y # ys'"
    by (auto simp: andThen_Inr)
  from Cons.IH [OF ys'] have l: "length ys' = length xs"
    and k: "\<forall>k<length xs. f (xs ! k) = Inr (ys' ! k)" by simp_all
  show ?case unfolding ys using l k y by (auto simp: nth_Cons split: nat.split)
qed

lemma mapM_set:
  assumes "mapM f xs = Inr ys"
  shows "set ys = {y. \<exists>x \<in> set xs. f x = Inr y}"
proof -
  from mapM_Inr [OF assms] have l: "length ys = length xs"
    and k: "\<And>k. k < length xs \<Longrightarrow> f (xs ! k) = Inr (ys ! k)" by simp_all
  show ?thesis
  proof (intro set_eqI iffI)
    fix y assume "y \<in> set ys"
    then obtain i where i: "i < length ys" "ys ! i = y" by (auto simp: in_set_conv_nth)
    with l k [of i] have "xs ! i \<in> set xs" "f (xs ! i) = Inr y" by simp_all
    then show "y \<in> {y. \<exists>x \<in> set xs. f x = Inr y}" by blast
  next
    fix y assume "y \<in> {y. \<exists>x \<in> set xs. f x = Inr y}"
    then obtain x where "x \<in> set xs" and fx: "f x = Inr y" by blast
    then obtain i where i: "i < length xs" "xs ! i = x" by (auto simp: in_set_conv_nth)
    with k [of i] fx have "ys ! i = y" by simp
    with i l show "y \<in> set ys" by (auto simp: in_set_conv_nth)
  qed
qed

section \<open>Rounding to the nearest float\<close>

lemma ulp_positive: "0 < ulp p x"
proof (induction p x rule: ulp.induct)
  case (1 p x)
  then show ?case by (subst ulp.simps) auto
qed

lemma ulp_bounds:
  "0 < x \<Longrightarrow> 2 ^ p * ulp p x \<le> 2 * x \<and> x < 2 ^ p * ulp p x"
proof (induction p x rule: ulp.induct)
  case (1 p x)
  show ?case
  proof (cases "2 ^ p \<le> x")
    case True
    with "1.prems" have u: "ulp p x = 2 * ulp p (x / 2)"
      by (subst ulp.simps) simp
    from "1.IH"(1) True "1.prems" have "2 ^ p * ulp p (x / 2) \<le> 2 * (x / 2) \<and>
        x / 2 < 2 ^ p * ulp p (x / 2)" by simp
    then show ?thesis unfolding u by simp
  next
    case False
    show ?thesis
    proof (cases "2 * x < 2 ^ p")
      case True
      with False "1.prems" have u: "ulp p x = ulp p (2 * x) / 2"
        by (subst ulp.simps) simp
      from "1.IH"(2) True False "1.prems" have "2 ^ p * ulp p (2 * x) \<le> 2 * (2 * x) \<and>
        2 * x < 2 ^ p * ulp p (2 * x)" by simp
      then show ?thesis unfolding u by simp
    next
      case nt: False
      with False "1.prems" have u: "ulp p x = 1"
        by (subst ulp.simps) simp
      from nt False show ?thesis unfolding u by simp
    qed
  qed
qed

lemma ulp_power_of_two: "\<exists>k::int. ulp p x = 2 powi k"
proof (induction p x rule: ulp.induct)
  case (1 p x)
  have one: "\<exists>k::int. (1::real) = 2 powi k"
    by (rule exI [of _ 0]) simp
  show ?case
  proof (cases "x \<le> 0")
    case True
    then have "ulp p x = 1" by (subst ulp.simps) simp
    with one show ?thesis by simp
  next
    case pos: False
    show ?thesis
    proof (cases "2 ^ p \<le> x")
      case True
      with pos have u: "ulp p x = 2 * ulp p (x / 2)"
        by (subst ulp.simps) simp
      from "1.IH"(1) [OF pos True] obtain k :: int where "ulp p (x / 2) = 2 powi k" ..
      then have "ulp p x = 2 powi (k + 1)"
        unfolding u by (simp add: power_int_add)
      then show ?thesis ..
    next
      case False
      show ?thesis
      proof (cases "2 * x < 2 ^ p")
        case True
        with False pos have u: "ulp p x = ulp p (2 * x) / 2"
          by (subst ulp.simps) simp
        from "1.IH"(2) [OF pos False True] obtain k :: int where "ulp p (2 * x) = 2 powi k" ..
        then have "ulp p x = 2 powi (k - 1)"
          unfolding u by (simp add: power_int_diff)
        then show ?thesis ..
      next
        case nt: False
        with False pos have "ulp p x = 1"
          by (subst ulp.simps) simp
        with one show ?thesis by simp
      qed
    qed
  qed
qed

lemma power_of_two_gap:
  fixes j k :: int
  assumes "(2::real) powi j < 2 powi k"
  shows "2 * 2 powi j \<le> (2::real) powi k"
proof -
  from assms have "j < k"
    by (metis linorder_not_le one_le_numeral power_int_increasing)
  then have "j + 1 \<le> k" by simp
  then have "(2::real) powi (j + 1) \<le> 2 powi k"
    by (intro power_int_increasing) simp_all
  then show ?thesis by (simp add: power_int_add)
qed

lemma ulp_unique:
  fixes k :: int
  assumes "0 < x" and "2 ^ p * 2 powi k \<le> 2 * x" and "x < 2 ^ p * 2 powi k"
  shows "ulp p x = 2 powi k"
proof -
  obtain j :: int where j: "ulp p x = 2 powi j"
    using ulp_power_of_two by blast
  from ulp_bounds [OF assms(1), of p] have b: "2 ^ p * 2 powi j \<le> 2 * x" "x < 2 ^ p * 2 powi j"
    unfolding j by simp_all
  have p: "(0::real) < 2 ^ p" by simp
  have "\<not> (2::real) powi j < 2 powi k"
  proof
    assume "(2::real) powi j < 2 powi k"
    then have "2 * 2 powi j \<le> (2::real) powi k" by (rule power_of_two_gap)
    with p have "2 ^ p * (2 * 2 powi j) \<le> 2 ^ p * (2::real) powi k"
      by (simp only: mult_le_cancel_left_pos)
    with b(2) assms(2) show False by simp
  qed
  moreover have "\<not> (2::real) powi k < 2 powi j"
  proof
    assume "(2::real) powi k < 2 powi j"
    then have "2 * 2 powi k \<le> (2::real) powi j" by (rule power_of_two_gap)
    with p have "2 ^ p * (2 * 2 powi k) \<le> 2 ^ p * (2::real) powi j"
      by (simp only: mult_le_cancel_left_pos)
    with b(1) assms(3) show False by simp
  qed
  ultimately show ?thesis unfolding j by simp
qed

lemma ulp_mono:
  assumes "0 < x" and "x \<le> y"
  shows "ulp p x \<le> ulp p y"
proof (rule ccontr)
  assume "\<not> ulp p x \<le> ulp p y"
  then have lt: "ulp p y < ulp p x" by simp
  obtain j k :: int where j: "ulp p x = 2 powi j" and k: "ulp p y = 2 powi k"
    using ulp_power_of_two by blast
  from lt have "2 * ulp p y \<le> ulp p x"
    unfolding j k by (rule power_of_two_gap)
  then have "2 ^ p * (2 * ulp p y) \<le> 2 ^ p * ulp p x"
    by (intro mult_left_mono) simp_all
  then have c: "2 * (2 ^ p * ulp p y) \<le> 2 ^ p * ulp p x"
    by (simp add: mult.left_commute)
  from assms have "0 < y" by simp
  from ulp_bounds [OF this, of p] have b1: "y < 2 ^ p * ulp p y" by simp
  from ulp_bounds [OF assms(1), of p] have b2: "2 ^ p * ulp p x \<le> 2 * x" by simp
  from c b1 b2 assms(2) show False by linarith
qed

lemma pyRound_range: "\<lfloor>x\<rfloor> \<le> pyRound x \<and> pyRound x \<le> \<lfloor>x\<rfloor> + 1"
  by (simp add: pyRound_def Let_def)

lemma pyRound_of_int: "pyRound (of_int n) = n"
  by (simp add: pyRound_def Let_def)

lemma pyRound_mono:
  assumes "x \<le> y"
  shows "pyRound x \<le> pyRound y"
proof (cases "\<lfloor>x\<rfloor> = \<lfloor>y\<rfloor>")
  case True
  from assms have "x - of_int \<lfloor>y\<rfloor> \<le> y - of_int \<lfloor>y\<rfloor>" by simp
  then show ?thesis
    unfolding pyRound_def Let_def True by auto
next
  case False
  from assms have "\<lfloor>x\<rfloor> \<le> \<lfloor>y\<rfloor>" by (rule floor_mono)
  with False have "\<lfloor>x\<rfloor> < \<lfloor>y\<rfloor>" by simp
  with pyRound_range [of x] pyRound_range [of y] show ?thesis by linarith
qed

lemma fl_positive_eq: "0 < x \<Longrightarrow> fl p x = of_int (pyRound (x / ulp p x)) * ulp p x"
  by (simp add: fl_def)

lemma fl_zero: "fl p 0 = 0"
  by (simp add: fl_def)

lemma significand_bounds:
  assumes "0 < x" and "0 < p"
  shows "2 ^ (p - 1) \<le> real_of_int (pyRound (x / ulp p x)) \<and>
         real_of_int (pyRound (x / ulp p x)) \<le> 2 ^ p"
proof -
  note u = ulp_positive [of p x]
  from ulp_bounds [OF assms(1), of p] have lo: "2 ^ p * ulp p x \<le> 2 * x"
    and hi: "x < 2 ^ p * ulp p x" by simp_all
  from assms(2) have pp: "(2::real) ^ p = 2 * 2 ^ (p - 1)"
    by (cases p) simp_all
  from lo u have "(2::real) ^ (p - 1) \<le> x / ulp p x"
    unfolding pp by (simp add: field_simps)
  then have "real_of_int (2 ^ (p - 1)) \<le> x / ulp p x" by simp
  then have "pyRound (real_of_int (2 ^ (p - 1))) \<le> pyRound (x / ulp p x)"
    by (rule pyRound_mono)
  then have "(2::int) ^ (p - 1) \<le> pyRound (x / ulp p x)"
    by (simp only: pyRound_of_int)
  then have "real_of_int (2 ^ (p - 1)) \<le> real_of_int (pyRound (x / ulp p x))"
    by (simp only: of_int_le_iff)
  then have a: "2 ^ (p - 1) \<le> real_of_int (pyRound (x / ulp p x))" by simp
  from hi u have "x / ulp p x \<le> 2 ^ p"
    by (simp add: field_simps)
  then have "x / ulp p x \<le> real_of_int (2 ^ p)" by simp
  then have "pyRound (x / ulp p x) \<le> pyRound (real_of_int (2 ^ p))"
    by (rule pyRound_mono)
  then have "pyRound (x / ulp p x) \<le> (2::int) ^ p"
    by (simp only: pyRound_of_int)
  then have "real_of_int (pyRound (x / ulp p x)) \<le> real_of_int (2 ^ p)"
    by (simp only: of_int_le_iff)
  then have b: "real_of_int (pyRound (x / ulp p x)) \<le> 2 ^ p" by simp
  from a b show ?thesis ..
qed

lemma fl_positive:
  assumes "0 < x" and "0 < p"
  shows "0 < fl p x"
proof -
  have "(0::real) < 2 ^ (p - 1)" by simp
  with significand_bounds [OF assms] have "0 < real_of_int (pyRound (x / ulp p x))"
    by linarith
  with ulp_positive [of p x] show ?thesis
    unfolding fl_positive_eq [OF assms(1)] by simp
qed

lemma fl_nonneg:
  assumes "0 \<le> x" and "0 < p"
  shows "0 \<le> fl p x"
proof (cases "x = 0")
  case True
  then show ?thesis by (simp add: fl_zero)
next
  case False
  with assms(1) have "0 < x" by simp
  from fl_positive [OF this assms(2)] show ?thesis by simp
qed

lemma fl_mono_positive:
  assumes "0 < x" and "x \<le> y" and "0 < p"
  shows "fl p x \<le> fl p y"
proof -
  from assms have y: "0 < y" by simp
  define u where "u = ulp p x"
  define w where "w = ulp p y"
  define n where "n = real_of_int (pyRound (x / u))"
  define m where "m = real_of_int (pyRound (y / w))"
  have u: "0 < u" and w: "0 < w"
    unfolding u_def w_def by (rule ulp_positive)+
  have fx: "fl p x = n * u"
    unfolding n_def u_def by (rule fl_positive_eq [OF assms(1)])
  have fy: "fl p y = m * w"
    unfolding m_def w_def by (rule fl_positive_eq [OF y])
  from ulp_mono [OF assms(1) assms(2), of p] have uw: "u \<le> w"
    unfolding u_def w_def .
  show ?thesis
  proof (cases "u = w")
    case True
    from assms(2) u have "x / u \<le> y / u" by (simp add: divide_right_mono)
    then have "pyRound (x / u) \<le> pyRound (y / u)" by (rule pyRound_mono)
    then have "n \<le> m" unfolding n_def m_def True by simp
    with w have "n * w \<le> m * w" by (intro mult_right_mono) simp_all
    then show ?thesis unfolding fx fy True .
  next
    case False
    with uw have lt: "u < w" by simp
    obtain j k :: int where j: "u = 2 powi j" and k: "w = 2 powi k"
      unfolding u_def w_def using ulp_power_of_two by blast
    from lt have gap: "2 * u \<le> w"
      unfolding j k by (rule power_of_two_gap)
    from assms(3) have pp: "(2::real) ^ p = 2 * 2 ^ (p - 1)"
      by (cases p) simp_all
    from significand_bounds [OF assms(1) assms(3)] have "n \<le> 2 ^ p"
      unfolding n_def u_def by simp
    with u have "n * u \<le> 2 ^ p * u"
      by (intro mult_right_mono) simp_all
    also have "\<dots> = 2 ^ (p - 1) * (2 * u)" unfolding pp by simp
    also from gap have "\<dots> \<le> 2 ^ (p - 1) * w"
      by (intro mult_left_mono) simp_all
    also have "\<dots> \<le> m * w"
    proof -
      from significand_bounds [OF y assms(3)] have "2 ^ (p - 1) \<le> m"
        unfolding m_def w_def by simp
      with w show ?thesis by (intro mult_right_mono) simp_all
    qed
    finally show ?thesis unfolding fx fy .
  qed
qed

lemma fl_mono:
  assumes "0 \<le> x" and "x \<le> y" and "0 < p"
  shows "fl p x \<le> fl p y"
proof (cases "x = 0")
  case True
  from assms have "0 \<le> y" by simp
  from fl_nonneg [OF this assms(3)] show ?thesis
    unfolding True fl_zero .
next
  case False
  with assms(1) have "0 < x" by simp
  from fl_mono_positive [OF this assms(2) assms(3)] show ?thesis .
qed

lemma fl_idempotent:
  assumes "0 \<le> x" and "0 < p"
  shows "fl p (fl p x) = fl p x"
proof (cases "x = 0")
  case True
  then show ?thesis by (simp add: fl_zero)
next
  case False
  with assms(1) have x: "0 < x" by simp
  define u where "u = ulp p x"
  define n where "n = pyRound (x / u)"
  have u: "0 < u" unfolding u_def by (rule ulp_positive)
  have y: "fl p x = real_of_int n * u"
    unfolding n_def u_def by (rule fl_positive_eq [OF x])
  from fl_positive [OF x assms(2)] have ypos: "0 < real_of_int n * u"
    unfolding y .
  obtain j :: int where j: "u = 2 powi j"
    unfolding u_def using ulp_power_of_two by blast
  from assms(2) have pp: "(2::real) ^ p = 2 * 2 ^ (p - 1)"
    by (cases p) simp_all
  from significand_bounds [OF x assms(2)] have lo: "2 ^ (p - 1) \<le> real_of_int n"
    and hi: "real_of_int n \<le> 2 ^ p"
    unfolding n_def u_def by simp_all
  show ?thesis
  proof (cases "real_of_int n = 2 ^ p")
    case True
    have "ulp p (real_of_int n * u) = 2 powi (j + 1)"
    proof (rule ulp_unique [OF ypos])
      show "2 ^ p * 2 powi (j + 1) \<le> 2 * (real_of_int n * u)"
        unfolding True j by (simp add: power_int_add)
      show "real_of_int n * u < 2 ^ p * 2 powi (j + 1)"
        unfolding True j by (simp add: power_int_add)
    qed
    then have u': "ulp p (real_of_int n * u) = 2 * u"
      unfolding j by (simp add: power_int_add)
    from u have "real_of_int n * u / (2 * u) = real_of_int (2 ^ (p - 1))"
      unfolding True pp by simp
    then have "pyRound (real_of_int n * u / (2 * u)) = 2 ^ (p - 1)"
      by (simp only: pyRound_of_int)
    then have "fl p (real_of_int n * u) = 2 ^ (p - 1) * (2 * u)"
      unfolding fl_positive_eq [OF ypos] u' by simp
    also have "\<dots> = real_of_int n * u"
      unfolding True pp by simp
    finally show ?thesis unfolding y .
  next
    case False
    with hi have lt: "real_of_int n < 2 ^ p" by simp
    have "ulp p (real_of_int n * u) = 2 powi j"
    proof (rule ulp_unique [OF ypos])
      from lo have "2 * 2 ^ (p - 1) \<le> 2 * real_of_int n" by simp
      with u have "2 * 2 ^ (p - 1) * u \<le> 2 * real_of_int n * u"
        by (intro mult_right_mono) simp_all
      then show "2 ^ p * 2 powi j \<le> 2 * (real_of_int n * u)"
        unfolding pp j by (simp add: mult.assoc)
      from lt u have "real_of_int n * u < 2 ^ p * u"
        by (intro mult_strict_right_mono)
      then show "real_of_int n * u < 2 ^ p * 2 powi j"
        unfolding j .
    qed
    then have u': "ulp p (real_of_int n * u) = u"
      unfolding j .
    from u have "real_of_int n * u / u = real_of_int n" by simp
    then have "pyRound (real_of_int n * u / u) = n"
      by (simp only: pyRound_of_int)
    then have "fl p (real_of_int n * u) = real_of_int n * u"
      unfolding fl_positive_eq [OF ypos] u' by simp
    then show ?thesis unfolding y .
  qed
qed

lemma fl_power_of_two:
  fixes k :: int
  assumes "0 < p"
  shows "fl p (2 powi k) = 2 powi k"
proof -
  define x :: real where "x = 2 powi k"
  have x: "0 < x" unfolding x_def by simp
  have two: "(2::real) ^ p = 2 powi (int p)" by simp
  have e: "(2::real) ^ p * 2 powi (k - int p + 1) = 2 * x"
    unfolding two x_def by (simp add: power_int_add power_int_diff)
  have u: "ulp p x = 2 powi (k - int p + 1)"
  proof (rule ulp_unique [OF x])
    show "2 ^ p * 2 powi (k - int p + 1) \<le> 2 * x" using e by simp
    show "x < 2 ^ p * 2 powi (k - int p + 1)" using e x by simp
  qed
  from assms have pp: "(2::real) ^ p = 2 * 2 ^ (p - 1)" by (cases p) simp_all
  from e have "x / ulp p x = 2 ^ (p - 1)"
    unfolding u pp by (simp add: field_simps)
  then have q: "x / ulp p x = real_of_int (2 ^ (p - 1))" by simp
  have "fl p x = real_of_int (pyRound (x / ulp p x)) * ulp p x"
    using x by (rule fl_positive_eq)
  also have "\<dots> = real_of_int (2 ^ (p - 1)) * ulp p x"
    unfolding q pyRound_of_int ..
  also have "\<dots> = x / ulp p x * ulp p x" unfolding q ..
  also have "\<dots> = x" using ulp_positive [of p x] by simp
  finally show ?thesis unfolding x_def .
qed

lemma smallestNormal_power: "smallestNormal f = 2 powi (- int (emax f - 2))"
  unfolding smallestNormal_def by (simp add: power_int_minus field_simps)

lemma smallestNormal_positive: "0 < smallestNormal f"
  unfolding smallestNormal_def by simp

lemma smallestSubnormal_positive: "0 < smallestSubnormal f"
  unfolding smallestSubnormal_def smallestNormal_def by simp

lemma fl_smallestNormal: "0 < precision f \<Longrightarrow> fl (precision f) (smallestNormal f) = smallestNormal f"
  unfolding smallestNormal_power by (rule fl_power_of_two)

lemma roundTo_zero: "roundTo f 0 = 0"
  by (simp add: roundTo_def fl_zero)

lemma roundTo_subnormal:
  assumes "0 \<le> x" and "x < smallestNormal f"
  shows "roundTo f x = real_of_int (pyRound (x / smallestSubnormal f)) * smallestSubnormal f"
proof (cases "x = 0")
  case True
  have "pyRound 0 = 0" using pyRound_of_int [of 0] by simp
  then show ?thesis unfolding True roundTo_zero by simp
next
  case False
  with assms show ?thesis by (simp add: roundTo_def)
qed

lemma roundTo_normal:
  assumes "smallestNormal f \<le> x"
  shows "roundTo f x = fl (precision f) x"
proof -
  from assms smallestNormal_positive [of f] have "\<not> \<bar>x\<bar> < smallestNormal f" by simp
  then show ?thesis by (simp add: roundTo_def)
qed

lemma subnormal_significand:
  assumes "0 \<le> x" and "x < smallestNormal f"
  shows "0 \<le> pyRound (x / smallestSubnormal f) \<and>
         pyRound (x / smallestSubnormal f) \<le> 2 ^ (precision f - 1)"
proof -
  note t = smallestSubnormal_positive [of f]
  from assms(1) t have "real_of_int 0 \<le> x / smallestSubnormal f" by simp
  then have "pyRound (real_of_int 0) \<le> pyRound (x / smallestSubnormal f)"
    by (rule pyRound_mono)
  then have a: "0 \<le> pyRound (x / smallestSubnormal f)"
    by (simp only: pyRound_of_int)
  have "smallestNormal f = 2 ^ (precision f - 1) * smallestSubnormal f"
    unfolding smallestSubnormal_def by simp
  with assms(2) have "x < 2 ^ (precision f - 1) * smallestSubnormal f" by simp
  with t have "x / smallestSubnormal f \<le> 2 ^ (precision f - 1)"
    by (simp add: field_simps)
  then have "x / smallestSubnormal f \<le> real_of_int (2 ^ (precision f - 1))" by simp
  then have "pyRound (x / smallestSubnormal f) \<le> pyRound (real_of_int (2 ^ (precision f - 1)))"
    by (rule pyRound_mono)
  then have b: "pyRound (x / smallestSubnormal f) \<le> 2 ^ (precision f - 1)"
    by (simp only: pyRound_of_int)
  from a b show ?thesis ..
qed

lemma roundTo_subnormal_bounds:
  assumes "0 \<le> x" and "x < smallestNormal f"
  shows "0 \<le> roundTo f x \<and> roundTo f x \<le> smallestNormal f"
proof -
  note t = smallestSubnormal_positive [of f]
  define n where "n = pyRound (x / smallestSubnormal f)"
  from subnormal_significand [OF assms] have n: "0 \<le> n" "n \<le> 2 ^ (precision f - 1)"
    unfolding n_def by simp_all
  have r: "roundTo f x = real_of_int n * smallestSubnormal f"
    unfolding n_def by (rule roundTo_subnormal [OF assms])
  from n(1) t have a: "0 \<le> roundTo f x" unfolding r by simp
  from n(2) have "real_of_int n \<le> real_of_int (2 ^ (precision f - 1))"
    by (simp only: of_int_le_iff)
  then have "real_of_int n \<le> 2 ^ (precision f - 1)" by simp
  with t have "real_of_int n * smallestSubnormal f \<le> 2 ^ (precision f - 1) * smallestSubnormal f"
    by (simp only: mult_le_cancel_right_pos)
  also have "\<dots> = smallestNormal f" unfolding smallestSubnormal_def by simp
  finally have b: "roundTo f x \<le> smallestNormal f" unfolding r .
  from a b show ?thesis ..
qed

lemma roundTo_normal_bound:
  assumes "smallestNormal f \<le> x" and "0 < precision f"
  shows "smallestNormal f \<le> roundTo f x"
proof -
  from smallestNormal_positive [of f] have "0 \<le> smallestNormal f" by simp
  from fl_mono [OF this assms] show ?thesis
    unfolding fl_smallestNormal [OF assms(2)] roundTo_normal [OF assms(1)] .
qed

lemma roundTo_nonneg:
  assumes "0 \<le> x" and "0 < precision f"
  shows "0 \<le> roundTo f x"
proof (cases "x < smallestNormal f")
  case True
  from roundTo_subnormal_bounds [OF assms(1) True] show ?thesis by simp
next
  case False
  then have "smallestNormal f \<le> x" by simp
  from roundTo_normal_bound [OF this assms(2)] smallestNormal_positive [of f]
  show ?thesis by simp
qed

lemma roundTo_mono:
  assumes "0 \<le> x" and "x \<le> y" and "0 < precision f"
  shows "roundTo f x \<le> roundTo f y"
proof (cases "y < smallestNormal f")
  case True
  with assms have xs: "x < smallestNormal f" and y0: "0 \<le> y" by simp_all
  note t = smallestSubnormal_positive [of f]
  from assms(2) t have "x / smallestSubnormal f \<le> y / smallestSubnormal f"
    by (simp add: divide_right_mono)
  then have "pyRound (x / smallestSubnormal f) \<le> pyRound (y / smallestSubnormal f)"
    by (rule pyRound_mono)
  then have "real_of_int (pyRound (x / smallestSubnormal f)) \<le>
             real_of_int (pyRound (y / smallestSubnormal f))"
    by (simp only: of_int_le_iff)
  with t have "real_of_int (pyRound (x / smallestSubnormal f)) * smallestSubnormal f \<le>
               real_of_int (pyRound (y / smallestSubnormal f)) * smallestSubnormal f"
    by (simp only: mult_le_cancel_right_pos)
  then show ?thesis
    unfolding roundTo_subnormal [OF assms(1) xs] roundTo_subnormal [OF y0 True] .
next
  case False
  then have yn: "smallestNormal f \<le> y" by simp
  show ?thesis
  proof (cases "x < smallestNormal f")
    case True
    from roundTo_subnormal_bounds [OF assms(1) True] roundTo_normal_bound [OF yn assms(3)]
    show ?thesis by simp
  next
    case False
    then have xn: "smallestNormal f \<le> x" by simp
    from fl_mono [OF assms] show ?thesis
      unfolding roundTo_normal [OF xn] roundTo_normal [OF yn] .
  qed
qed

lemma roundTo_idempotent:
  assumes "0 \<le> x" and "0 < precision f"
  shows "roundTo f (roundTo f x) = roundTo f x"
proof (cases "x < smallestNormal f")
  case True
  note t = smallestSubnormal_positive [of f]
  define n where "n = pyRound (x / smallestSubnormal f)"
  have r: "roundTo f x = real_of_int n * smallestSubnormal f"
    unfolding n_def by (rule roundTo_subnormal [OF assms(1) True])
  from roundTo_subnormal_bounds [OF assms(1) True]
  have b: "0 \<le> roundTo f x" "roundTo f x \<le> smallestNormal f" by simp_all
  show ?thesis
  proof (cases "roundTo f x < smallestNormal f")
    case True
    from t have "real_of_int n * smallestSubnormal f / smallestSubnormal f = real_of_int n"
      by simp
    then have "pyRound (roundTo f x / smallestSubnormal f) = n"
      unfolding r by (simp only: pyRound_of_int)
    then show ?thesis
      unfolding roundTo_subnormal [OF b(1) True] using r by simp
  next
    case False
    with b(2) have e: "roundTo f x = smallestNormal f" by simp
    have "roundTo f (smallestNormal f) = smallestNormal f"
      using roundTo_normal [of f "smallestNormal f"] fl_smallestNormal [OF assms(2)] by simp
    then show ?thesis unfolding e .
  qed
next
  case False
  then have xn: "smallestNormal f \<le> x" by simp
  from roundTo_normal_bound [OF xn assms(2)] have rn: "smallestNormal f \<le> roundTo f x" .
  have "roundTo f (roundTo f x) = fl (precision f) (roundTo f x)"
    by (rule roundTo_normal [OF rn])
  also have "\<dots> = fl (precision f) (fl (precision f) x)"
    unfolding roundTo_normal [OF xn] ..
  also have "\<dots> = fl (precision f) x" by (rule fl_idempotent [OF assms])
  also have "\<dots> = roundTo f x" unfolding roundTo_normal [OF xn] ..
  finally show ?thesis .
qed

lemma rnd_nonneg:
  assumes "0 \<le> x" and "0 < precision f"
  shows "rnd f x = PosInf \<or> (\<exists>r. rnd f x = Finite r \<and> 0 \<le> r \<and> r = roundTo f x)"
proof (cases "2 ^ emax f \<le> \<bar>roundTo f x\<bar>")
  case True
  have "(0::real) < 2 ^ emax f" by simp
  with True roundTo_nonneg [OF assms] have "0 < roundTo f x" by linarith
  with True show ?thesis by (simp add: rnd_def infinity_def)
next
  case False
  with roundTo_nonneg [OF assms] show ?thesis by (simp add: rnd_def)
qed

lemma rnd_Finite: "rnd f x = Finite r \<Longrightarrow> r = roundTo f x \<and> \<bar>r\<bar> < 2 ^ emax f"
  by (auto simp: rnd_def Let_def infinity_def split: if_splits)

lemma rnd_representable:
  assumes "rnd f x = Finite r" and "0 \<le> x" and "0 < precision f"
  shows "rnd f r = Finite r"
proof -
  note rf = rnd_Finite [OF assms(1)]
  from rf have r: "r = roundTo f x" by (rule conjunct1)
  from rf have b: "\<bar>r\<bar> < 2 ^ emax f" by (rule conjunct2)
  from roundTo_idempotent [OF assms(2,3)] have i: "roundTo f r = r" unfolding r .
  from b have "\<not> 2 ^ emax f \<le> \<bar>r\<bar>" by simp
  then show ?thesis unfolding rnd_def Let_def i by simp
qed

lemma rnd_zero: "rnd f 0 = Finite 0"
proof -
  have "\<not> (2::real) ^ emax f \<le> 0" by (simp add: not_le)
  then show ?thesis by (simp add: rnd_def roundTo_zero)
qed

section \<open>Validation\<close>













section \<open>Algorithm parameters, derived\<close>

lemma pyRound_near: "\<bar>of_int (pyRound x) - x\<bar> \<le> 1 / 2"
  unfolding pyRound_def Let_def by (auto simp: abs_if) linarith+

lemma flag_iff: "flag v \<longleftrightarrow> v = Some ''True''"
  by (cases v) (simp_all add: flag_def)

lemma floatToInt_Inr: "floatToInt q = Inr i \<longleftrightarrow> (\<exists>x. q = Finite x \<and> i = pyInt x)"
  by (cases q) auto

lemma candidateIndex_Inr:
  "candidateIndex n s R2 = Inr i \<longleftrightarrow>
     s \<noteq> Finite 0 \<and> (\<exists>x. fdiv binary64 R2 s = Finite x \<and> i = min (n - 1) (pyInt x))"
  unfolding candidateIndex_def pyDiv_def andThen_Inr floatToInt_Inr
  by (cases "s = Finite 0") auto

lemma stepOf_Inr:
  "stepOf n m = Inr s \<longleftrightarrow>
     (if n > 1 then \<exists>d. rnd binary64 (of_int (n - 1)) = Finite d \<and> d \<noteq> 0 \<and>
                         s = fdiv binary64 m (Finite d)
      else s = Finite 1)"
  by (cases "rnd binary64 (of_int (n - 1))")
    (auto simp: stepOf_def intToFloat_def andThen_def pyDiv_def simp del: fdiv.simps(1))

lemma roundTenth_Inr:
  "roundTenth n = Inr k \<longleftrightarrow> (\<exists>q. rnd binary64 (of_int n / 10) = Finite q \<and> k = pyRound q)"
  unfolding roundTenth_def by (cases "rnd binary64 (of_int n / 10)") auto

lemma ex_step: "stepOf 12 (Finite 100) = Inr (Finite (5117726849284655 / 562949953421312))"
  by (simp add: stepOf_def intToFloat_def pyDiv_def andThen_def rnd_def roundTo_def binary64_def
      smallestNormal_def fl_def ulp.simps pyRound_def infinity_def)

lemma ex_float_0: "pyFloat 0 = Finite 0"
  by (simp add: pyFloat_def rnd_zero)

lemma ex_float_25: "pyFloat 25 = Finite 25"
  by (simp add: pyFloat_def rnd_def roundTo_def binary64_def
      smallestNormal_def fl_def ulp.simps pyRound_def infinity_def)

lemma ex_float_27: "pyFloat 27 = Finite 27"
  by (simp add: pyFloat_def rnd_def roundTo_def binary64_def
      smallestNormal_def fl_def ulp.simps pyRound_def infinity_def)

lemma ex_float_100: "pyFloat 100 = Finite 100"
  by (simp add: pyFloat_def rnd_def roundTo_def binary64_def
      smallestNormal_def fl_def ulp.simps pyRound_def infinity_def)

lemma ex_float_200: "pyFloat 200 = Finite 200"
  by (simp add: pyFloat_def rnd_def roundTo_def binary64_def
      smallestNormal_def fl_def ulp.simps pyRound_def infinity_def)

lemma ex_quotient_0:
  "fdiv binary64 (Finite 0) (Finite (5117726849284655 / 562949953421312)) = Finite 0"
  by (simp add: rnd_zero)

lemma ex_quotient_25:
  "fdiv binary64 (Finite 25) (Finite (5117726849284655 / 562949953421312)) =
   Finite (6192449487634431 / 2251799813685248)"
  by (simp add: rnd_def roundTo_def binary64_def
      smallestNormal_def fl_def ulp.simps pyRound_def infinity_def)

lemma ex_quotient_27:
  "fdiv binary64 (Finite 27) (Finite (5117726849284655 / 562949953421312)) =
   Finite (3343922723322593 / 1125899906842624)"
  by (simp add: rnd_def roundTo_def binary64_def
      smallestNormal_def fl_def ulp.simps pyRound_def infinity_def)

lemma ex_quotient_100:
  "fdiv binary64 (Finite 100) (Finite (5117726849284655 / 562949953421312)) =
   Finite (6192449487634431 / 562949953421312)"
  by (simp add: rnd_def roundTo_def binary64_def
      smallestNormal_def fl_def ulp.simps pyRound_def infinity_def)

lemma ex_quotient_200:
  "fdiv binary64 (Finite 200) (Finite (5117726849284655 / 562949953421312)) =
   Finite (6192449487634431 / 281474976710656)"
  by (simp add: rnd_def roundTo_def binary64_def
      smallestNormal_def fl_def ulp.simps pyRound_def infinity_def)

lemma ex_indices:
  "mapM (candidateIndex 12 (Finite (5117726849284655 / 562949953421312)))
     [Finite 0, Finite 25, Finite 27, Finite 100, Finite 200] = Inr [0, 2, 2, 10, 11]"
  by (simp add: candidateIndex_def pyDiv_def andThen_def ex_quotient_0 ex_quotient_25
      ex_quotient_27 ex_quotient_100 ex_quotient_200 pyInt_def del: fdiv.simps(1))

lemma ex_tenth: "roundTenth 25 = Inr 2"
  by (simp add: roundTenth_def rnd_def roundTo_def binary64_def
      smallestNormal_def fl_def ulp.simps pyRound_def infinity_def)

lemma ex_algo: "updateAlgoParams exampleAlgoConfig =
   Inr \<lparr>nR2 = 12, R2max = Finite 100,
        R2cand = [Finite 0, Finite 25, Finite 27, Finite 100, Finite 200], FibSearch = False,
        mu = Finite 1, nB0 = 25, nICMiter = 0, graphcut = True,
        graphcutLevel = 0, multiScale = False,
        use3D = False, R2step = Finite (5117726849284655 / 562949953421312),
        iR2cand = {0, 2, 10, 11}, nR2cand = 4, maxICMupdate = 2\<rparr>"
  by (simp add: updateAlgoParams_def exampleAlgoConfig_def flag_def Let_def ex_float_0
      ex_float_25 ex_float_27 ex_float_100 ex_float_200 ex_step ex_indices ex_tenth andThen_def
      del: mapM.simps)

text \<open>
  Claim C7, with the arithmetic of the program: the quotients are those of 64-bit floats,
  each rounded to the nearest float, and \<open>int\<close> truncates the rounded quotient. When
  \<open>updateAlgoParams\<close> returns: \<open>R2step\<close> is the float quotient of \<open>R2max\<close> and \<open>nR2 - 1\<close>
  for \<open>nR2 > 1\<close> and 1.0 otherwise; \<open>iR2cand\<close> holds exactly the indices
  \<open>min (nR2 - 1) (int (R2 / R2step))\<close> of the candidates, each once, so that none exceeds
  \<open>nR2 - 1\<close>, and \<open>nR2cand\<close> is their number; \<open>graphcutLevel\<close> is 0 with graph cut and 100
  without; \<open>maxICMupdate\<close> is \<open>round\<close> of the float \<open>nB0 / 10\<close>, Python's rounding to the
  nearest integer, within one half of that float; and each of the four flags is set
  exactly when its key is present with the string \<^verbatim>\<open>'True'\<close>. The function does not
  return when a division or a conversion raises: \<open>R2step\<close> zero, a quotient that is not
  finite, an integer too large for a float.
\<close>

theorem updateAlgoParams_post:
  assumes "updateAlgoParams aPar = Inr a"
  shows "(if nR2 a > 1
          then \<exists>d. rnd binary64 (of_int (nR2 a - 1)) = Finite d \<and> d \<noteq> 0 \<and>
                    R2step a = fdiv binary64 (R2max a) (Finite d)
          else R2step a = Finite 1) \<and>
         (\<forall>R2 \<in> set (R2cand a). \<exists>q. fdiv binary64 R2 (R2step a) = Finite q \<and>
              min (nR2 a - 1) (pyInt q) \<in> iR2cand a) \<and>
         (\<forall>i \<in> iR2cand a. \<exists>R2 \<in> set (R2cand a). \<exists>q.
              fdiv binary64 R2 (R2step a) = Finite q \<and> i = min (nR2 a - 1) (pyInt q)) \<and>
         (\<forall>i \<in> iR2cand a. i \<le> nR2 a - 1) \<and>
         nR2cand a = card (iR2cand a) \<and>
         graphcutLevel a = (if graphcut a then 0 else 100) \<and>
         (\<exists>q. rnd binary64 (of_int (nB0 a) / 10) = Finite q \<and> maxICMupdate a = pyRound q \<and>
              \<bar>real_of_int (maxICMupdate a) - q\<bar> \<le> 1 / 2) \<and>
         (FibSearch a \<longleftrightarrow> fibsearch aPar = Some ''True'') \<and>
         (graphcut a \<longleftrightarrow> graphcut_key aPar = Some ''True'') \<and>
         (multiScale a \<longleftrightarrow> multiscale aPar = Some ''True'') \<and>
         (use3D a \<longleftrightarrow> use3d aPar = Some ''True'') \<and>
         nR2 a = (case nr2 aPar of Some n \<Rightarrow> n | None \<Rightarrow> 1) \<and>
         R2max a = (case r2max aPar of Some r \<Rightarrow> pyFloat r | None \<Rightarrow> Finite 100) \<and>
         R2cand a = (case r2cand aPar of Some rs \<Rightarrow> map pyFloat rs | None \<Rightarrow> [Finite 0]) \<and>
         nB0 a = (case nb0 aPar of Some n \<Rightarrow> n | None \<Rightarrow> 100)"
proof -
  define n where "n = (case nr2 aPar of Some n \<Rightarrow> n | None \<Rightarrow> 1)"
  define rm where "rm = (case r2max aPar of Some r \<Rightarrow> pyFloat r | None \<Rightarrow> Finite 100)"
  define rc where "rc = (case r2cand aPar of Some rs \<Rightarrow> map pyFloat rs | None \<Rightarrow> [Finite 0])"
  define b where "b = (case nb0 aPar of Some n \<Rightarrow> n | None \<Rightarrow> 100)"
  from assms obtain st indices k where st: "stepOf n rm = Inr st"
    and ix: "mapM (candidateIndex n st) rc = Inr indices"
    and k: "roundTenth b = Inr k"
    and a: "a = \<lparr>nR2 = n, R2max = rm, R2cand = rc, FibSearch = flag (fibsearch aPar),
          mu = (case mu_key aPar of Some m \<Rightarrow> pyFloat m | None \<Rightarrow> Finite 1), nB0 = b,
          nICMiter = (case nicmiter aPar of Some n \<Rightarrow> n | None \<Rightarrow> 0),
          graphcut = flag (graphcut_key aPar),
          graphcutLevel = 100 * (if \<not> flag (graphcut_key aPar) then 1 else 0),
          multiScale = flag (multiscale aPar), use3D = flag (use3d aPar), R2step = st,
          iR2cand = set indices, nR2cand = card (set indices), maxICMupdate = k\<rparr>"
    unfolding updateAlgoParams_def Let_def n_def [symmetric] rm_def [symmetric]
      rc_def [symmetric] b_def [symmetric] andThen_Inr
    by auto
  note s = mapM_set [OF ix]
  have step: "(if nR2 a > 1
          then \<exists>d. rnd binary64 (of_int (nR2 a - 1)) = Finite d \<and> d \<noteq> 0 \<and>
                    R2step a = fdiv binary64 (R2max a) (Finite d)
          else R2step a = Finite 1)"
  proof -
    have e: "nR2 a = n" "R2max a = rm" "R2step a = st" unfolding a by simp_all
    from st show ?thesis unfolding stepOf_Inr e .
  qed
  have fwd: "\<forall>R2 \<in> set (R2cand a). \<exists>q. fdiv binary64 R2 (R2step a) = Finite q \<and>
              min (nR2 a - 1) (pyInt q) \<in> iR2cand a"
  proof
    fix R2 assume "R2 \<in> set (R2cand a)"
    then have m: "R2 \<in> set rc" unfolding a by simp
    then obtain i where i: "candidateIndex n st R2 = Inr i"
      using mapM_Inr [OF ix] by (auto simp: in_set_conv_nth)
    with m have "i \<in> set indices" unfolding s by blast
    with i show "\<exists>q. fdiv binary64 R2 (R2step a) = Finite q \<and>
              min (nR2 a - 1) (pyInt q) \<in> iR2cand a"
      unfolding candidateIndex_Inr a by auto
  qed
  have bwd: "\<forall>i \<in> iR2cand a. \<exists>R2 \<in> set (R2cand a). \<exists>q.
              fdiv binary64 R2 (R2step a) = Finite q \<and> i = min (nR2 a - 1) (pyInt q)"
  proof
    fix i assume "i \<in> iR2cand a"
    then have "i \<in> set indices" unfolding a by simp
    then obtain R2 where "R2 \<in> set rc" "candidateIndex n st R2 = Inr i"
      unfolding s by blast
    then show "\<exists>R2 \<in> set (R2cand a). \<exists>q.
              fdiv binary64 R2 (R2step a) = Finite q \<and> i = min (nR2 a - 1) (pyInt q)"
      unfolding candidateIndex_Inr a by auto
  qed
  have clamp: "\<forall>i \<in> iR2cand a. i \<le> nR2 a - 1"
  proof
    fix i assume "i \<in> iR2cand a"
    with bwd obtain q where "i = min (nR2 a - 1) (pyInt q)" by blast
    then show "i \<le> nR2 a - 1" by simp
  qed
  from k obtain q where q: "rnd binary64 (of_int b / 10) = Finite q" and kq: "k = pyRound q"
    unfolding roundTenth_Inr by blast
  have near: "\<exists>q. rnd binary64 (of_int (nB0 a) / 10) = Finite q \<and> maxICMupdate a = pyRound q \<and>
              \<bar>real_of_int (maxICMupdate a) - q\<bar> \<le> 1 / 2"
    unfolding a using q kq pyRound_near [of q] by simp
  have count: "nR2cand a = card (iR2cand a)"
    unfolding a by simp
  have level: "graphcutLevel a = (if graphcut a then 0 else 100)"
    unfolding a by simp
  have f1: "FibSearch a \<longleftrightarrow> fibsearch aPar = Some ''True''"
    and f2: "graphcut a \<longleftrightarrow> graphcut_key aPar = Some ''True''"
    and f3: "multiScale a \<longleftrightarrow> multiscale aPar = Some ''True''"
    and f4: "use3D a \<longleftrightarrow> use3d aPar = Some ''True''"
    unfolding a by (simp_all add: flag_iff)
  have c1: "nR2 a = (case nr2 aPar of Some n \<Rightarrow> n | None \<Rightarrow> 1)"
    and c2: "R2max a = (case r2max aPar of Some r \<Rightarrow> pyFloat r | None \<Rightarrow> Finite 100)"
    and c3: "R2cand a = (case r2cand aPar of Some rs \<Rightarrow> map pyFloat rs | None \<Rightarrow> [Finite 0])"
    and c4: "nB0 a = (case nb0 aPar of Some n \<Rightarrow> n | None \<Rightarrow> 100)"
    unfolding a by (simp_all add: n_def rm_def rc_def b_def)
  show ?thesis
    by (intro conjI) (fact step fwd bwd clamp count level near f1 f2 f3 f4 c1 c2 c3 c4)+
qed

theorem updateAlgoParams_post_witness:
  "updateAlgoParams exampleAlgoConfig =
     Inr \<lparr>nR2 = 12, R2max = Finite 100,
        R2cand = [Finite 0, Finite 25, Finite 27, Finite 100, Finite 200], FibSearch = False,
        mu = Finite 1, nB0 = 25, nICMiter = 0, graphcut = True,
        graphcutLevel = 0, multiScale = False,
        use3D = False, R2step = Finite (5117726849284655 / 562949953421312),
        iR2cand = {0, 2, 10, 11}, nR2cand = 4, maxICMupdate = 2\<rparr> \<and>
   (\<exists>d. rnd binary64 (of_int (12 - 1)) = Finite d \<and> d \<noteq> 0 \<and>
        Finite (5117726849284655 / 562949953421312) = fdiv binary64 (Finite 100) (Finite d)) \<and>
   fdiv binary64 (Finite 100) (Finite (5117726849284655 / 562949953421312)) =
     Finite (6192449487634431 / 562949953421312) \<and>
   min (12 - 1) (pyInt (6192449487634431 / 562949953421312)) = 10 \<and>
   (10::int) \<in> {0, 2, 10, 11} \<and>
   (4::nat) = card {0, 2, 10, 11::int} \<and>
   (\<exists>q. rnd binary64 (of_int 25 / 10) = Finite q \<and> (2::int) = pyRound q) \<and>
   fibsearch exampleAlgoConfig \<noteq> Some ''True'' \<and>
   graphcut_key exampleAlgoConfig = Some ''True''"
proof -
  note post = updateAlgoParams_post [OF ex_algo]
  have c: "fibsearch exampleAlgoConfig \<noteq> Some ''True'' \<and>
      graphcut_key exampleAlgoConfig = Some ''True''"
    by (simp add: exampleAlgoConfig_def)
  from post [THEN conjunct1]
  have d: "\<exists>d. rnd binary64 (of_int (12 - 1)) = Finite d \<and> d \<noteq> 0 \<and>
        Finite (5117726849284655 / 562949953421312) = fdiv binary64 (Finite 100) (Finite d)"
    by (simp del: fdiv.simps(1))
  from post [THEN conjunct2, THEN conjunct2, THEN conjunct2, THEN conjunct2, THEN conjunct2,
    THEN conjunct2, THEN conjunct1]
  have "\<exists>q. rnd binary64 (of_int 25 / 10) = Finite q \<and> (2::int) = pyRound q \<and>
           \<bar>real_of_int 2 - q\<bar> \<le> 1 / 2"
    by simp
  then have q: "\<exists>q. rnd binary64 (of_int 25 / 10) = Finite q \<and> (2::int) = pyRound q"
    by blast
  from post [THEN conjunct2, THEN conjunct2, THEN conjunct2, THEN conjunct2, THEN conjunct1]
  have n: "(4::nat) = card {0, 2, 10, 11::int}"
    by simp
  have i: "min (12 - 1) (pyInt (6192449487634431 / 562949953421312)) = (10::int)"
    by (simp add: pyInt_def)
  have m: "(10::int) \<in> {0, 2, 10, 11}" by simp
  from c have c1: "fibsearch exampleAlgoConfig \<noteq> Some ''True''"
    and c2: "graphcut_key exampleAlgoConfig = Some ''True''" by simp_all
  show ?thesis
    by (intro conjI) (fact ex_algo d ex_quotient_100 i m n q c1 c2)+
qed

section \<open>Model parameters, derived\<close>

lemma ex_model: "updateModelParams defaultModelConfig =
   Inr \<lparr>keys = defaultModelConfig, CS = [4.7, 1.3], P = 2, nFAC = 0, M = 2, CL = None, P2U = None,
        alpha = [[1, 0], [1, 1]]\<rparr>"
  by (simp add: updateModelParams_def defaultModelConfig_def waterAlpha_def Let_def upt_rec)

lemma ex_fac: "updateModelParams facModelConfig = Inl (AttributeError ''P2U'')"
  by (simp add: updateModelParams_def facModelConfig_def Let_def)

lemma watCS_length [simp]:
  "length (case w of Some x \<Rightarrow> [x] | None \<Rightarrow> [d]) = Suc 0"
  by (cases w) simp_all

lemma setUniform_fold:
  "n > 0 \<Longrightarrow> setUniform row ps n = Inr (fold (\<lambda>p r. r[p := 1 / of_nat n]) ps row)"
  by (induction ps arbitrary: row) simp_all

lemma fold_update_upt:
  "k \<le> length row \<Longrightarrow>
     fold (\<lambda>p r. r[p := v]) [0..<k] row = replicate k v @ drop k row"
proof (induction k)
  case 0
  then show ?case by simp
next
  case (Suc k)
  then have "fold (\<lambda>p r. r[p := v]) [0..<Suc k] row = (replicate k v @ drop k row)[k := v]"
    by simp
  also have "\<dots> = replicate k v @ (drop k row)[0 := v]"
    by (simp add: list_update_append)
  also have "(drop k row)[0 := v] = v # drop (Suc k) row"
    using Suc.prems by (cases "drop k row") (auto simp: drop_Suc tl_drop [symmetric] dest: arg_cong [where f = tl])
  finally show ?case by (simp add: replicate_append_same)
qed

lemma updateModelParams_uniform:
  assumes "nfac mPar = None \<or> nfac mPar = Some 0" and "relamps mPar = None"
    and "fatcs mPar = Some cs" and "cs \<noteq> []"
  shows "\<exists>m. updateModelParams mPar = Inr m \<and>
           alpha m = [1 # replicate (length cs) 0,
                      replicate (Suc (length cs)) (1 / of_nat (length cs))]"
proof -
  have n: "(case nfac mPar of Some n \<Rightarrow> n | None \<Rightarrow> 0) = 0"
    using assms(1) by auto
  have u: "setUniform (replicate (Suc (length cs)) 0) [0..<Suc (length cs)] (length cs) =
      Inr (replicate (Suc (length cs)) (1 / of_nat (length cs)))"
    using assms(4) fold_update_upt [of "Suc (length cs)" "replicate (Suc (length cs)) 0"]
    by (simp add: setUniform_fold del: upt_Suc replicate_Suc)
  show ?thesis
    unfolding updateModelParams_def Let_def n assms(2) assms(3)
    by (simp add: waterAlpha_def u del: upt_Suc replicate_Suc) simp
qed

text \<open>
  Claim C5, at the input where the program departs from it. With the default
  configuration (no key at all: one fat resonance, no relative amplitudes, \<open>nFAC = 0\<close>)
  \<open>updateModelParams\<close> returns the matrix whose row 0 is the water indicator \<open>[1, 0]\<close>
  and whose row 1 is \<open>[1, 1]\<close>: the loop \<^verbatim>\<open>for p in range(mPar.P)\<close> writes
  \<open>1/len(fatCS)\<close> at the water position 0 as well, where the claim has zero. Lemma
  \<open>updateModelParams_uniform\<close> shows the same for every list of fat resonances.
\<close>

theorem updateModelParams_default_alpha:
  "\<exists>m. updateModelParams defaultModelConfig = Inr m \<and> nFAC m = 0 \<and>
       alpha m ! 0 = [1, 0] \<and> alpha m ! 1 = [1, 1] \<and> alpha m ! 1 ! 0 \<noteq> 0"
  by (simp add: ex_model)

text \<open>
  Claim C10 says that every configuration with \<open>nfac = 1\<close> and no key \<open>p2u\<close> fails with
  an attribute-lookup error, after the default 0.2 was stored under \<open>p2u\<close>. That is so
  only when the configuration has the ten fat resonances that \<open>nFAC > 0\<close> asks for. The
  first theorem is the configuration whose only key is \<open>nfac = 1\<close>: it has one fat
  resonance, and the check of the resonances raises its own exception before the default
  is stored and before \<open>P2U\<close> is read. The second is the claim as amended: with \<open>nfac = 1\<close>
  and no key \<open>p2u\<close>, \<open>updateModelParams\<close> never returns, so that no matrix alpha is
  produced; with ten fat resonances the error is the AttributeError of reading \<open>P2U\<close>,
  which was never set because the default went to the key \<open>p2u\<close>; with any other number
  it is the exception of the check of the resonances.
\<close>

theorem missing_p2u_resonances_counterexample:
  "nfac (defaultModelConfig\<lparr>nfac := Some 1\<rparr>) = Some 1 \<and>
   p2u (defaultModelConfig\<lparr>nfac := Some 1\<rparr>) = None \<and>
   updateModelParams (defaultModelConfig\<lparr>nfac := Some 1\<rparr>) = Inl FACResonances \<and>
   updateModelParams (defaultModelConfig\<lparr>nfac := Some 1\<rparr>) \<noteq> Inl (AttributeError ''P2U'')"
  by (simp add: updateModelParams_def defaultModelConfig_def Let_def)

theorem updateModelParams_missing_p2u:
  assumes "nfac mPar = Some 1" and "p2u mPar = None"
  shows "updateModelParams mPar =
           Inl (if length (case fatcs mPar of Some cs \<Rightarrow> cs | None \<Rightarrow> [1.3]) = 10
                then AttributeError ''P2U'' else FACResonances) \<and>
         (\<nexists>m. updateModelParams mPar = Inr m)"
  using assms by (simp add: updateModelParams_def Let_def)

theorem updateModelParams_missing_p2u_witness:
  "nfac facModelConfig = Some 1 \<and> p2u facModelConfig = None \<and>
   updateModelParams facModelConfig = Inl (AttributeError ''P2U'') \<and>
   (\<nexists>m. updateModelParams facModelConfig = Inr m)"
proof -
  have a: "nfac facModelConfig = Some 1" and b: "p2u facModelConfig = None"
    by (simp_all add: facModelConfig_def)
  from updateModelParams_missing_p2u [OF a b] a b show ?thesis
    by (simp add: ex_fac)
qed

section \<open>Data parameters from DICOM files, derived\<close>



















section \<open>The check of the echo spacing\<close>



lemma ex_timing_regular: "echoTiming [0.001, 0.002, 0.003] = Inr (0.001, 0.001, False)"
  by (simp add: echoTiming_def np_diff_def np_mean_def andThen_def spacingVaries_def)

























section \<open>The fat fraction, derived\<close>

lemma roundTo_one: "roundTo binary64 1 = 1"
  by (simp add: roundTo_def binary64_def smallestNormal_def fl_def ulp.simps pyRound_def)

lemma roundTo_eps: "roundTo binary64 eps = eps"
  by (simp add: eps_def roundTo_def binary64_def smallestNormal_def fl_def ulp.simps pyRound_def)

lemma binary64_precision: "0 < precision binary64"
  by (simp add: binary64_def)

lemma binary32_precision: "0 < precision binary32"
  by (simp add: binary32_def)

lemma rnd_unit_interval:
  assumes "0 \<le> x" and "x \<le> 1"
  shows "\<exists>r. rnd binary64 x = Finite r \<and> 0 \<le> r \<and> r \<le> 1"
proof -
  from roundTo_nonneg [OF assms(1) binary64_precision] have lo: "0 \<le> roundTo binary64 x" .
  from roundTo_mono [OF assms binary64_precision] have hi: "roundTo binary64 x \<le> 1"
    unfolding roundTo_one .
  have "(1::real) < 2 ^ emax binary64" by (simp add: binary64_def)
  with lo hi have "\<not> 2 ^ emax binary64 \<le> \<bar>roundTo binary64 x\<bar>" by simp
  then have "rnd binary64 x = Finite (roundTo binary64 x)" by (simp add: rnd_def)
  with lo hi show ?thesis by simp
qed

text \<open>
  The quotient of the fat fraction for a magnitude of water that is a number and a
  magnitude of fat that is a finite 64-bit float.
\<close>

lemma ffVoxel_bounds:
  assumes aw: "aw = PosInf \<or> (\<exists>a. aw = Finite a \<and> 0 \<le> a)"
    and b: "0 \<le> b" and rep: "rnd binary64 b = Finite b"
  shows "\<exists>r. ffVoxel aw (Finite b) = Finite r \<and> 0 \<le> r \<and> r \<le> 1"
proof -
  note p = binary64_precision
  have zero: "\<exists>r. Finite 0 = Finite r \<and> 0 \<le> r \<and> r \<le> 1" by simp
  have e: "0 < eps" by (simp add: eps_def)
  from rnd_Finite [OF rep] have rb: "roundTo binary64 b = b" by simp
  show ?thesis
  proof (cases "aw = PosInf")
    case True
    then have "ffVoxel aw (Finite b) = Finite 0" by (simp add: ffVoxel_def)
    with zero show ?thesis by simp
  next
    case False
    with aw obtain a where a: "aw = Finite a" "0 \<le> a" by blast
    from a(2) b have ab: "0 \<le> a + b" by simp
    from rnd_nonneg [OF ab p] show ?thesis
    proof
      assume "rnd binary64 (a + b) = PosInf"
      then have "ffVoxel aw (Finite b) = Finite 0" by (simp add: ffVoxel_def a(1))
      with zero show ?thesis by simp
    next
      assume "\<exists>s. rnd binary64 (a + b) = Finite s \<and> 0 \<le> s \<and> s = roundTo binary64 (a + b)"
      then obtain s where s: "rnd binary64 (a + b) = Finite s" "0 \<le> s"
        "s = roundTo binary64 (a + b)" by blast
      from a(2) have "b \<le> a + b" by simp
      from roundTo_mono [OF b this p] have bs: "b \<le> s" unfolding rb s(3) .
      from roundTo_idempotent [OF ab p] have rs: "roundTo binary64 s = s" unfolding s(3) .
      from s(2) e have se: "0 \<le> s + eps" by simp
      from rnd_nonneg [OF se p] show ?thesis
      proof
        assume "rnd binary64 (s + eps) = PosInf"
        then have "ffVoxel aw (Finite b) = Finite 0" by (simp add: ffVoxel_def a(1) s(1))
        with zero show ?thesis by simp
      next
        assume "\<exists>d. rnd binary64 (s + eps) = Finite d \<and> 0 \<le> d \<and> d = roundTo binary64 (s + eps)"
        then obtain d where d: "rnd binary64 (s + eps) = Finite d"
          "d = roundTo binary64 (s + eps)" by blast
        from e have "s \<le> s + eps" by simp
        from roundTo_mono [OF s(2) this p] have sd: "s \<le> d" unfolding rs d(2) .
        from e have e0: "0 \<le> eps" by simp
        from s(2) have "eps \<le> s + eps" by simp
        from roundTo_mono [OF e0 this p] have "eps \<le> d" unfolding roundTo_eps d(2) .
        with e have d0: "0 < d" by simp
        from bs sd have bd: "b \<le> d" by simp
        from b d0 have q0: "0 \<le> b / d" by simp
        from bd d0 have q1: "b / d \<le> 1" by simp
        from d0 have "ffVoxel aw (Finite b) = rnd binary64 (b / d)"
          by (simp add: ffVoxel_def a(1) s(1) d(1))
        with rnd_unit_interval [OF q0 q1] show ?thesis by simp
      qed
    qed
  qed
qed

lemma ffVoxel_NaN:
  "aw = NaN \<or> af = NaN \<or> af = PosInf \<Longrightarrow> aw \<noteq> NegInf \<Longrightarrow> af \<noteq> NegInf \<Longrightarrow>
     ffVoxel aw af = NaN"
  unfolding ffVoxel_def by (cases aw; cases af; cases "fadd binary64 aw af") auto

text \<open>A magnitude is not-a-number, infinite, or a float that is not negative.\<close>

lemma np_abs_cases:
  assumes "0 < precision f"
  shows "np_abs f z = NaN \<or> np_abs f z = PosInf \<or>
         (\<exists>r. np_abs f z = Finite r \<and> 0 \<le> r \<and> rnd f r = Finite r)"
proof (cases z)
  case (Pair a b)
  show ?thesis
  proof (cases "\<exists>x y. a = Finite x \<and> b = Finite y")
    case True
    then obtain x y where xy: "a = Finite x" "b = Finite y" by blast
    have n: "0 \<le> sqrt (x * x + y * y)" by simp
    from rnd_nonneg [OF n assms] show ?thesis
    proof
      assume "rnd f (sqrt (x * x + y * y)) = PosInf"
      then show ?thesis unfolding Pair xy by simp
    next
      assume "\<exists>r. rnd f (sqrt (x * x + y * y)) = Finite r \<and> 0 \<le> r \<and>
                  r = roundTo f (sqrt (x * x + y * y))"
      then obtain r where r: "rnd f (sqrt (x * x + y * y)) = Finite r" "0 \<le> r" by blast
      from rnd_representable [OF r(1) n assms] r show ?thesis unfolding Pair xy by simp
    qed
  next
    case False
    then show ?thesis unfolding Pair by (cases a; cases b) auto
  qed
qed

lemma addBlock_Inr:
  "length block = length fat \<Longrightarrow>
     addBlock fat block = Inr (map (\<lambda>(f, b). cadd binary64 f b) (zip fat block))"
  by (simp add: addBlock_def)

lemma block_length:
  assumes "(m + 1) * nVxl \<le> length X"
  shows "length (take nVxl (drop (m * nVxl) X)) = nVxl"
  using assms by simp

lemma getFat_loop_Inr:
  assumes "length fat = nVxl" and "\<forall>m\<in>set ms. (m + 1) * nVxl \<le> length X"
  shows "getFat_loop X nVxl a ms fat =
         Inr (map (\<lambda>v. foldl (\<lambda>acc m. cadd binary64 acc
                                (weighted (rowWeight (a ! m)) (X ! (m * nVxl + v))))
                      (fat ! v) ms)
                [0..<nVxl])"
  using assms
proof (induction ms arbitrary: fat)
  case Nil
  from Nil.prems(1) have "map ((!) fat) [0..<nVxl] = fat"
    using map_nth [of fat] by simp
  then show ?case by simp
next
  case (Cons m ms)
  define block where
    "block = map (weighted (rowWeight (a ! m))) (take nVxl (drop (m * nVxl) X))"
  define fat' where "fat' = map (\<lambda>(f, b). cadd binary64 f b) (zip fat block)"
  from Cons.prems have m: "(m + 1) * nVxl \<le> length X" by simp
  from Cons.prems have ms: "\<forall>k\<in>set ms. (k + 1) * nVxl \<le> length X" by simp
  have lb: "length block = nVxl"
    unfolding block_def length_map by (rule block_length [OF m])
  with Cons.prems(1) have add: "addBlock fat block = Inr fat'"
    unfolding fat'_def by (intro addBlock_Inr) simp
  have lf: "length fat' = nVxl"
    unfolding fat'_def using lb Cons.prems(1) by simp
  have nth: "fat' ! v = cadd binary64 (fat ! v) (weighted (rowWeight (a ! m)) (X ! (m * nVxl + v)))"
    if "v < nVxl" for v
  proof -
    from that lb Cons.prems(1) have "fat' ! v = cadd binary64 (fat ! v) (block ! v)"
      unfolding fat'_def by simp
    also from that m have "block ! v = weighted (rowWeight (a ! m)) (X ! (m * nVxl + v))"
      unfolding block_def by simp
    finally show ?thesis .
  qed
  have "getFat_loop X nVxl a (m # ms) fat = getFat_loop X nVxl a ms fat'"
    unfolding getFat_loop.simps block_def [symmetric] add andThen_def by simp
  also have "\<dots> = Inr (map (\<lambda>v. foldl (\<lambda>acc m. cadd binary64 acc
                                (weighted (rowWeight (a ! m)) (X ! (m * nVxl + v))))
                      (fat' ! v) ms)
                [0..<nVxl])"
    by (rule Cons.IH [OF lf ms])
  also have "\<dots> = Inr (map (\<lambda>v. foldl (\<lambda>acc m. cadd binary64 acc
                                (weighted (rowWeight (a ! m)) (X ! (m * nVxl + v))))
                      (fat ! v) (m # ms))
                [0..<nVxl])"
    by (simp add: nth)
  finally show ?case .
qed

lemma getFat_Inr:
  assumes "length X = nVxl * length a"
  shows "getFat X nVxl a =
         Inr (map (\<lambda>v. foldl (\<lambda>acc m. cadd binary64 acc
                                (weighted (rowWeight (a ! m)) (X ! (m * nVxl + v))))
                      (Finite 0, Finite 0) [1..<length a])
                [0..<nVxl])"
proof -
  have "(m + 1) * nVxl \<le> length X" if "m \<in> set [1..<length a]" for m
  proof -
    from that have "m + 1 \<le> length a" by simp
    then have "(m + 1) * nVxl \<le> length a * nVxl" by (rule mult_le_mono1)
    with assms show ?thesis by (simp add: mult.commute)
  qed
  then have "\<forall>m\<in>set [1..<length a]. (m + 1) * nVxl \<le> length X" by blast
  from getFat_loop_Inr [OF length_replicate this, of a]
  show ?thesis unfolding getFat_def by simp
qed

lemma fatFraction_Inr:
  assumes len: "length X = nVxl * length a" and ne: "a \<noteq> []"
  shows "fatFraction X nVxl a =
         Inr (map (\<lambda>v. ffVoxel (np_abs binary32 (X ! v))
                 (np_abs binary64
                    (foldl (\<lambda>acc m. cadd binary64 acc
                                (weighted (rowWeight (a ! m)) (X ! (m * nVxl + v))))
                      (Finite 0, Finite 0) [1..<length a])))
                [0..<nVxl])"
proof -
  from ne have "1 \<le> length a" by (cases a) simp_all
  then have "nVxl * 1 \<le> nVxl * length a" by (rule mult_le_mono2)
  with len have lw: "length (take nVxl X) = nVxl" by simp
  show ?thesis
    unfolding fatFraction_def Let_def getFat_Inr [OF len] andThen_def sum.case
    using lw by (auto simp add: broadcast_def intro!: nth_equalityI)
qed

lemma sqrt_25: "sqrt 25 = 5"
  by (rule real_sqrt_unique) simp_all

lemma rnd_five: "rnd binary64 5 = Finite 5"
  by (simp add: rnd_def roundTo_def binary64_def smallestNormal_def fl_def ulp.simps
      pyRound_def)

lemma rnd32_five: "rnd binary32 5 = Finite 5"
  by (simp add: rnd_def roundTo_def binary32_def smallestNormal_def fl_def ulp.simps
      pyRound_def)

lemma rnd32_one: "rnd binary32 1 = Finite 1"
  by (simp add: rnd_def roundTo_def binary32_def smallestNormal_def fl_def ulp.simps
      pyRound_def)

lemma rnd_one: "rnd binary64 1 = Finite 1"
  by (simp add: rnd_def roundTo_def binary64_def smallestNormal_def fl_def ulp.simps
      pyRound_def)

lemma ex_rowWeight: "rowWeight [1, 1] = Finite 1"
  by (simp add: rowWeight_def rnd_one)

lemma ex_weighted_5: "weighted (Finite 1) (Finite 5, Finite 0) = (Finite 5, Finite 0)"
  by (simp add: weighted_def cmul_def ofReal_def fsub_def rnd32_one rnd32_five rnd_zero)

lemma ex_weighted_0: "weighted (Finite 1) (Finite 0, Finite 0) = (Finite 0, Finite 0)"
  by (simp add: weighted_def cmul_def ofReal_def fsub_def rnd32_one rnd_zero)

lemma ffVoxel_fat_only: "ffVoxel (Finite 0) (Finite 5) = Finite 1"
  by (simp add: ffVoxel_def eps_def rnd_def roundTo_def binary64_def smallestNormal_def fl_def
      ulp.simps pyRound_def)

lemma ffVoxel_water_only: "ffVoxel (Finite 5) (Finite 0) = Finite 0"
  by (simp add: ffVoxel_def eps_def rnd_def roundTo_def binary64_def smallestNormal_def fl_def
      ulp.simps pyRound_def)

lemma ex_fat_only:
  "fatFraction [(Finite 0, Finite 0), (Finite 5, Finite 0)] 1 [[1, 0], [1, 1]] = Inr [Finite 1]"
  by (simp add: fatFraction_def getFat_def addBlock_def andThen_def broadcast_def
      ex_rowWeight ex_weighted_5 cadd_def rnd_five rnd_zero sqrt_25 ffVoxel_fat_only)

lemma ex_water_only:
  "fatFraction [(Finite 5, Finite 0), (Finite 0, Finite 0)] 1 [[1, 0], [1, 1]] = Inr [Finite 0]"
  by (simp add: fatFraction_def getFat_def addBlock_def andThen_def broadcast_def
      ex_rowWeight ex_weighted_0 cadd_def rnd32_five rnd_zero sqrt_25 ffVoxel_water_only)

text \<open>
  Claim C8 gives the formula of the fat fraction, its value at two voxels and the bounds
  \<open>0 \<le> ff < 1\<close> for every voxel. The formula and the two values hold; the strict upper
  bound does not, and the voxel that refutes it is one of the two of the claim: with no
  water and a fat signal of 5 the sum \<open>5 + \<epsilon>\<close> is rounded to 5, the nearest 64-bit float,
  and the quotient is 1. The first theorem is that voxel. The second is the claim as
  amended, for an array \<open>X\<close> of \<open>M\<close> blocks of \<open>nVxl\<close> voxels (\<open>M\<close> the number of rows of
  \<open>alpha\<close>, at least one). The fat fraction is computed and has one value for every voxel:
  the float quotient of \<open>|fat|\<close> and the float sum \<open>|wat| + |fat| + \<epsilon>\<close>, where \<open>wat\<close> is the
  voxel of block 0 and \<open>fat\<close> is the sum, from \<open>m = 1\<close> on, of the voxel of block \<open>m\<close>
  times the sum of row \<open>m\<close> of \<open>alpha\<close> without its first column. That value is
  not-a-number exactly when \<open>|fat|\<close> is infinite or one of the two magnitudes is
  not-a-number; in every other case it is a number between 0 and 1, both included. It
  is 1 for \<open>wat = 0\<close>, \<open>fat = 5\<close> and 0 for \<open>wat = 5\<close>, \<open>fat = 0\<close>.
\<close>

theorem fat_fraction_below_one_counterexample:
  "\<exists>ff. fatFraction [(Finite 0, Finite 0), (Finite 5, Finite 0)] 1 [[1, 0], [1, 1]] = Inr ff \<and>
        length ff = 1 \<and> ff ! 0 = Finite 1 \<and> \<not> fless (ff ! 0) (Finite 1)"
  unfolding ex_fat_only by simp

theorem fatFraction_formula:
  assumes "length X = nVxl * length alpha'" and "alpha' \<noteq> []"
  shows "(\<exists>ff. fatFraction X nVxl alpha' = Inr ff \<and> length ff = nVxl \<and>
           (\<forall>v<nVxl. \<exists>aw af.
              aw = np_abs binary32 (X ! v) \<and>
              af = np_abs binary64
                     (foldl (\<lambda>fat m. cadd binary64 fat
                                (weighted (rowWeight (alpha' ! m)) (X ! (m * nVxl + v))))
                        (Finite 0, Finite 0) [1..<length alpha']) \<and>
              ff ! v = fdiv binary64 af (fadd binary64 (fadd binary64 aw af) (Finite eps)) \<and>
              (ff ! v = NaN \<longleftrightarrow> aw = NaN \<or> af = NaN \<or> af = PosInf) \<and>
              (ff ! v \<noteq> NaN \<longrightarrow> (\<exists>r. ff ! v = Finite r \<and> 0 \<le> r \<and> r \<le> 1)))) \<and>
         fatFraction [(Finite 0, Finite 0), (Finite 5, Finite 0)] 1 [[1, 0], [1, 1]] =
           Inr [Finite 1] \<and>
         fatFraction [(Finite 5, Finite 0), (Finite 0, Finite 0)] 1 [[1, 0], [1, 1]] =
           Inr [Finite 0]"
proof -
  define fat where
    "fat v = foldl (\<lambda>fat m. cadd binary64 fat
                                (weighted (rowWeight (alpha' ! m)) (X ! (m * nVxl + v))))
                        (Finite 0, Finite 0) [1..<length alpha']" for v
  define ff where
    "ff = map (\<lambda>v. ffVoxel (np_abs binary32 (X ! v)) (np_abs binary64 (fat v))) [0..<nVxl]"
  have r: "fatFraction X nVxl alpha' = Inr ff"
    unfolding ff_def fat_def by (rule fatFraction_Inr [OF assms])
  have l: "length ff = nVxl" unfolding ff_def by simp
  have v: "\<exists>aw af. aw = np_abs binary32 (X ! v) \<and> af = np_abs binary64 (fat v) \<and>
              ff ! v = fdiv binary64 af (fadd binary64 (fadd binary64 aw af) (Finite eps)) \<and>
              (ff ! v = NaN \<longleftrightarrow> aw = NaN \<or> af = NaN \<or> af = PosInf) \<and>
              (ff ! v \<noteq> NaN \<longrightarrow> (\<exists>r. ff ! v = Finite r \<and> 0 \<le> r \<and> r \<le> 1))"
    if "v < nVxl" for v
  proof -
    define aw where "aw = np_abs binary32 (X ! v)"
    define af where "af = np_abs binary64 (fat v)"
    from that have e: "ff ! v = ffVoxel aw af"
      unfolding ff_def aw_def af_def by simp
    note cw = np_abs_cases [OF binary32_precision, of "X ! v", folded aw_def]
    note cf = np_abs_cases [OF binary64_precision, of "fat v", folded af_def]
    have b: "(ff ! v = NaN \<longleftrightarrow> aw = NaN \<or> af = NaN \<or> af = PosInf) \<and>
             (ff ! v \<noteq> NaN \<longrightarrow> (\<exists>r. ff ! v = Finite r \<and> 0 \<le> r \<and> r \<le> 1))"
    proof (cases "aw = NaN \<or> af = NaN \<or> af = PosInf")
      case True
      from cw have "aw \<noteq> NegInf" by auto
      moreover from cf have "af \<noteq> NegInf" by auto
      ultimately have "ffVoxel aw af = NaN" using True by (intro ffVoxel_NaN)
      with True show ?thesis unfolding e by simp
    next
      case False
      with cf obtain b where b: "af = Finite b" "0 \<le> b" "rnd binary64 b = Finite b"
        by blast
      from False cw have "aw = PosInf \<or> (\<exists>a. aw = Finite a \<and> 0 \<le> a)" by blast
      from ffVoxel_bounds [OF this b(2,3)] obtain r where
        "ffVoxel aw af = Finite r" "0 \<le> r" "r \<le> 1" unfolding b(1) by blast
      with False show ?thesis unfolding e by simp
    qed
    have "ff ! v = fdiv binary64 af (fadd binary64 (fadd binary64 aw af) (Finite eps))"
      unfolding e ffVoxel_def ..
    with b aw_def af_def show ?thesis by blast
  qed
  then have "\<forall>v<nVxl. \<exists>aw af. aw = np_abs binary32 (X ! v) \<and> af = np_abs binary64 (fat v) \<and>
              ff ! v = fdiv binary64 af (fadd binary64 (fadd binary64 aw af) (Finite eps)) \<and>
              (ff ! v = NaN \<longleftrightarrow> aw = NaN \<or> af = NaN \<or> af = PosInf) \<and>
              (ff ! v \<noteq> NaN \<longrightarrow> (\<exists>r. ff ! v = Finite r \<and> 0 \<le> r \<and> r \<le> 1))"
    by blast
  with r l have "\<exists>ff. fatFraction X nVxl alpha' = Inr ff \<and> length ff = nVxl \<and>
           (\<forall>v<nVxl. \<exists>aw af. aw = np_abs binary32 (X ! v) \<and> af = np_abs binary64 (fat v) \<and>
              ff ! v = fdiv binary64 af (fadd binary64 (fadd binary64 aw af) (Finite eps)) \<and>
              (ff ! v = NaN \<longleftrightarrow> aw = NaN \<or> af = NaN \<or> af = PosInf) \<and>
              (ff ! v \<noteq> NaN \<longrightarrow> (\<exists>r. ff ! v = Finite r \<and> 0 \<le> r \<and> r \<le> 1)))"
    by (intro exI [of _ ff] conjI)
  note main = this [unfolded fat_def]
  from main ex_fat_only ex_water_only show ?thesis by (intro conjI)
qed

theorem fatFraction_formula_witness:
  "length [(Finite 5, Finite 0), (Finite 0, Finite 0)] = 1 * length [[1, 0], [1, 1 :: real]] \<and>
   [[1, 0], [1, 1 :: real]] \<noteq> [] \<and>
   (\<exists>ff. fatFraction [(Finite 5, Finite 0), (Finite 0, Finite 0)] 1 [[1, 0], [1, 1]] = Inr ff \<and>
      length ff = 1 \<and> ff ! 0 = Finite 0 \<and> ff ! 0 \<noteq> NaN \<and>
      (\<exists>r. ff ! 0 = Finite r \<and> 0 \<le> r \<and> r \<le> 1))"
proof -
  have a: "length [(Finite 5, Finite 0), (Finite 0, Finite 0)] = 1 * length [[1, 0], [1, 1 :: real]]"
    by simp
  have b: "[[1, 0], [1, 1 :: real]] \<noteq> []" by simp
  from fatFraction_formula [OF a b, THEN conjunct1] obtain ff where
    r: "fatFraction [(Finite 5, Finite 0), (Finite 0, Finite 0)] 1 [[1, 0], [1, 1]] = Inr ff"
    and l: "length ff = 1"
    and v: "\<And>v. v < 1 \<Longrightarrow> ff ! v \<noteq> NaN \<longrightarrow> (\<exists>r. ff ! v = Finite r \<and> 0 \<le> r \<and> r \<le> 1)"
    by blast
  from r have ff: "ff = [Finite 0]" unfolding ex_water_only by simp
  then have n: "ff ! 0 = Finite 0" "ff ! 0 \<noteq> NaN" by simp_all
  from v [of 0] n(2) have "\<exists>r. ff ! 0 = Finite r \<and> 0 \<le> r \<and> r \<le> 1" by simp
  with r l n have "\<exists>ff. fatFraction [(Finite 5, Finite 0), (Finite 0, Finite 0)] 1 [[1, 0], [1, 1]] = Inr ff \<and>
      length ff = 1 \<and> ff ! 0 = Finite 0 \<and> ff ! 0 \<noteq> NaN \<and>
      (\<exists>r. ff ! 0 = Finite r \<and> 0 \<le> r \<and> r \<le> 1)"
    by blast
  with a b show ?thesis by (intro conjI)
qed

end
